theory Spec2Isabelle
  imports Complex_Main
begin

section \<open>The annotation editor of AnnotationCanvas.tsx\<close>

text \<open>
  The editor component keeps the shapes drawn over one image, a bounded undo history,
  and the transient state of five pointer tools. The geometry helpers at the top of the
  source file are pure functions; the component's handlers read and write React state
  and refs, which are gathered here in one record that every handler takes and returns.

  JavaScript numbers are modelled as \<^typ>\<open>real\<close>: coordinates, distances and thresholds
  are exact. Identifiers and colours are strings.
\<close>

subsection \<open>Data model (lib/types.ts)\<close>

record AnnotationPoint =
  pt_x :: real
  pt_y :: real

record Rect =
  rect_x :: real
  rect_y :: real
  rect_width :: real
  rect_height :: real

datatype AnnotationType = Bbox | Polygon | Freehand

text \<open>Optional fields of the interface (\<open>color?\<close>, \<open>label?\<close>, \<open>points?\<close>, \<open>bbox?\<close>) are options.\<close>

record AnnotationShape =
  shape_id :: string
  shape_type :: AnnotationType
  shape_color :: "string option"
  shape_label :: "string option"
  shape_points :: "AnnotationPoint list option"
  shape_bbox :: "Rect option"

datatype Tool = ToolBbox | ToolPolygon | ToolFreehand | ToolSelect | ToolErase

subsection \<open>Constants\<close>

definition COLORS :: "string list" where
  "COLORS = [''#ef4444'', ''#f97316'', ''#f59e0b'', ''#84cc16'', ''#10b981'', ''#14b8a6'',
             ''#06b6d4'', ''#3b82f6'', ''#6366f1'', ''#8b5cf6'', ''#a855f7'', ''#ec4899'']"

definition MIN_BOX_SIZE :: real where
  "MIN_BOX_SIZE = 8"

definition POLYGON_CLOSE_DISTANCE :: real where
  "POLYGON_CLOSE_DISTANCE = 14"

definition FREEHAND_CLOSE_DISTANCE :: real where
  "FREEHAND_CLOSE_DISTANCE = 12"

definition MAX_UNDO_STACK :: nat where
  "MAX_UNDO_STACK = 50"

subsection \<open>Geometry helpers\<close>

text \<open>\<open>Math.hypot\<close> of two arguments.\<close>

definition hypot :: "real \<Rightarrow> real \<Rightarrow> real" where
  "hypot a b = sqrt (a\<^sup>2 + b\<^sup>2)"

text \<open>
  \<open>cloneAnnotations\<close> rebuilds every shape with a fresh copy of its bbox and of each of its
  points. Values carry no identity here, so the copy is field by field.
\<close>

definition clonePoint :: "AnnotationPoint \<Rightarrow> AnnotationPoint" where
  "clonePoint point = \<lparr>pt_x = pt_x point, pt_y = pt_y point\<rparr>"

definition cloneRect :: "Rect \<Rightarrow> Rect" where
  "cloneRect r = \<lparr>rect_x = rect_x r, rect_y = rect_y r,
                  rect_width = rect_width r, rect_height = rect_height r\<rparr>"

definition cloneAnnotations :: "AnnotationShape list \<Rightarrow> AnnotationShape list" where
  "cloneAnnotations shapes =
     map (\<lambda>shape. shape\<lparr>shape_bbox := map_option cloneRect (shape_bbox shape),
                          shape_points := map_option (map clonePoint) (shape_points shape)\<rparr>)
         shapes"

text \<open>
  \<open>ensureClosed\<close>: \<open>points[0]\<close> and \<open>points[points.length - 1]\<close> are read only after the
  length check; \<open>points.slice(0, -1)\<close> is \<^const>\<open>butlast\<close>.
\<close>

definition ensureClosed :: "AnnotationPoint list \<Rightarrow> real \<Rightarrow> AnnotationPoint list" where
  "ensureClosed pts threshold =
     (if length pts < 2 then pts
      else
        let first_pt = pts ! 0;
            last_pt = pts ! (length pts - 1);
            distance = hypot (pt_x last_pt - pt_x first_pt) (pt_y last_pt - pt_y first_pt)
        in if distance = 0 then pts
           else if distance \<le> threshold then butlast pts @ [first_pt]
           else pts @ [first_pt])"

text \<open>
  \<open>Math.min(...xs)\<close> and \<open>Math.max(...xs)\<close>, called only on the coordinates of a
  non-empty point list: the arguments are the first coordinate and the rest.
\<close>

definition math_min :: "real \<Rightarrow> real list \<Rightarrow> real" where
  "math_min v vs = fold min vs v"

definition math_max :: "real \<Rightarrow> real list \<Rightarrow> real" where
  "math_max v vs = fold max vs v"

definition computeShapeBounds :: "AnnotationShape \<Rightarrow> Rect option" where
  "computeShapeBounds shape =
     (case shape_bbox shape of
        Some b \<Rightarrow> Some (cloneRect b)
      | None \<Rightarrow>
          (case shape_points shape of
             None \<Rightarrow> None
           | Some [] \<Rightarrow> None
           | Some (p # ps) \<Rightarrow>
               let minX = math_min (pt_x p) (map pt_x ps);
                   maxX = math_max (pt_x p) (map pt_x ps);
                   minY = math_min (pt_y p) (map pt_y ps);
                   maxY = math_max (pt_y p) (map pt_y ps)
               in Some \<lparr>rect_x = minX, rect_y = minY,
                         rect_width = maxX - minX, rect_height = maxY - minY\<rparr>))"

definition normalizeRect :: "AnnotationPoint \<Rightarrow> AnnotationPoint \<Rightarrow> Rect" where
  "normalizeRect start end_pt =
     \<lparr>rect_x = min (pt_x start) (pt_x end_pt),
      rect_y = min (pt_y start) (pt_y end_pt),
      rect_width = \<bar>pt_x end_pt - pt_x start\<bar>,
      rect_height = \<bar>pt_y end_pt - pt_y start\<bar>\<rparr>"

definition rectsIntersect :: "Rect \<Rightarrow> Rect \<Rightarrow> bool" where
  "rectsIntersect a b =
     (rect_x a < rect_x b + rect_width b \<and> rect_x a + rect_width a > rect_x b \<and>
      rect_y a < rect_y b + rect_height b \<and> rect_y a + rect_height a > rect_y b)"

definition distancePointToSegment ::
  "AnnotationPoint \<Rightarrow> AnnotationPoint \<Rightarrow> AnnotationPoint \<Rightarrow> real" where
  "distancePointToSegment point start end_pt =
     (let l2 = (pt_x end_pt - pt_x start)\<^sup>2 + (pt_y end_pt - pt_y start)\<^sup>2
      in if l2 = 0 then hypot (pt_x point - pt_x start) (pt_y point - pt_y start)
         else
           let t0 = ((pt_x point - pt_x start) * (pt_x end_pt - pt_x start) +
                     (pt_y point - pt_y start) * (pt_y end_pt - pt_y start)) / l2;
               t = max 0 (min 1 t0);
               projection = \<lparr>pt_x = pt_x start + t * (pt_x end_pt - pt_x start),
                              pt_y = pt_y start + t * (pt_y end_pt - pt_y start)\<rparr>
           in hypot (pt_x point - pt_x projection) (pt_y point - pt_y projection))"

text \<open>
  \<open>isPointNearPolyline\<close> walks the consecutive pairs \<open>polyline[index]\<close>,
  \<open>polyline[index + 1]\<close> from the left and returns at the first segment within tolerance.
\<close>

fun isPointNearPolyline :: "AnnotationPoint \<Rightarrow> AnnotationPoint list \<Rightarrow> real \<Rightarrow> bool" where
  "isPointNearPolyline point (start # end_pt # rest) tolerance =
     (if distancePointToSegment point start end_pt \<le> tolerance then True
      else isPointNearPolyline point (end_pt # rest) tolerance)"
| "isPointNearPolyline point polyline tolerance = False"

text \<open>
  \<open>isPointInPolygon\<close>: the loop \<open>for (i = 0, j = n - 1; i < n; j = i++)\<close> with the flag
  \<open>inside\<close>. The conjunction \<open>&&\<close> evaluates its right operand, the one that divides by
  \<open>yj - yi\<close>, only when the left operand is true. The first definition makes the division
  partial: it stops with \<open>DivisionByZero\<close> when the divisor it is about to use is zero.
\<close>

datatype geometry_error = DivisionByZero

function isPointInPolygon_loop_checked ::
  "AnnotationPoint \<Rightarrow> AnnotationPoint list \<Rightarrow> nat \<Rightarrow> nat \<Rightarrow> bool \<Rightarrow> geometry_error + bool" where
  "isPointInPolygon_loop_checked point polygon i j inside =
     (if i < length polygon then
        let xi = pt_x (polygon ! i); yi = pt_y (polygon ! i);
            xj = pt_x (polygon ! j); yj = pt_y (polygon ! j)
        in if (yi > pt_y point) \<noteq> (yj > pt_y point) then
             if yj - yi = 0 then Inl DivisionByZero
             else
               let intersect = pt_x point < ((xj - xi) * (pt_y point - yi)) / (yj - yi) + xi
               in isPointInPolygon_loop_checked point polygon (i + 1) i
                    (if intersect then \<not> inside else inside)
           else isPointInPolygon_loop_checked point polygon (i + 1) i inside
      else Inr inside)"
  by pat_completeness auto
termination
  by (relation "measure (\<lambda>(point, polygon, i, j, inside). length polygon - i)") auto

definition isPointInPolygon_checked ::
  "AnnotationPoint \<Rightarrow> AnnotationPoint list \<Rightarrow> geometry_error + bool" where
  "isPointInPolygon_checked point polygon =
     isPointInPolygon_loop_checked point polygon 0 (length polygon - 1) False"

text \<open>The same loop with the division of \<^typ>\<open>real\<close>, as the other functions call it.\<close>

function isPointInPolygon_loop ::
  "AnnotationPoint \<Rightarrow> AnnotationPoint list \<Rightarrow> nat \<Rightarrow> nat \<Rightarrow> bool \<Rightarrow> bool" where
  "isPointInPolygon_loop point polygon i j inside =
     (if i < length polygon then
        let xi = pt_x (polygon ! i); yi = pt_y (polygon ! i);
            xj = pt_x (polygon ! j); yj = pt_y (polygon ! j);
            intersect = ((yi > pt_y point) \<noteq> (yj > pt_y point) \<and>
                         pt_x point < ((xj - xi) * (pt_y point - yi)) / (yj - yi) + xi)
        in isPointInPolygon_loop point polygon (i + 1) i
             (if intersect then \<not> inside else inside)
      else inside)"
  by pat_completeness auto
termination
  by (relation "measure (\<lambda>(point, polygon, i, j, inside). length polygon - i)") auto

definition isPointInPolygon :: "AnnotationPoint \<Rightarrow> AnnotationPoint list \<Rightarrow> bool" where
  "isPointInPolygon point polygon =
     isPointInPolygon_loop point polygon 0 (length polygon - 1) False"

declare isPointInPolygon_loop_checked.simps [simp del]
declare isPointInPolygon_loop.simps [simp del]

subsection \<open>Editor state\<close>

text \<open>
  The \<open>useState\<close> values and the \<open>useRef\<close> cells of the component that the handlers use.
  \<open>toolRef\<close> and \<open>polygonPointsRef\<close> are copies of \<open>tool\<close> and \<open>polygonPoints\<close> kept by an
  effect for the keyboard handler; the model reads the state fields instead.
\<close>

record Editor =
  annotations :: "AnnotationShape list"
  tool :: Tool
  currentColor :: string
  selectedIds :: "string list"
  isDrawing :: bool
  startPos :: "AnnotationPoint option"
  draftShape :: "AnnotationShape option"
  polygonPoints :: "AnnotationPoint list"
  selectionRect :: "Rect option"
  selectionStartRef :: "AnnotationPoint option"
  freehandPointsRef :: "AnnotationPoint list"
  drawingColorRef :: string
  undoStackRef :: "AnnotationShape list list"

text \<open>The state after mounting on an item whose annotation list is \<open>anns\<close>.\<close>

definition initialEditor :: "AnnotationShape list \<Rightarrow> Editor" where
  "initialEditor anns =
     \<lparr>annotations = anns, tool = ToolBbox, currentColor = COLORS ! 0, selectedIds = [],
      isDrawing = False, startPos = None, draftShape = None, polygonPoints = [],
      selectionRect = None, selectionStartRef = None, freehandPointsRef = [],
      drawingColorRef = COLORS ! 0, undoStackRef = []\<rparr>"

subsection \<open>Undo history\<close>

text \<open>\<open>push\<close> appends at the end; \<open>shift\<close> removes the first entry; \<open>pop\<close> removes the last.\<close>

definition pushUndoSnapshot :: "AnnotationShape list list \<Rightarrow> AnnotationShape list \<Rightarrow> AnnotationShape list list" where
  "pushUndoSnapshot stack snapshot =
     (let pushed = stack @ [cloneAnnotations snapshot]
      in if length pushed > MAX_UNDO_STACK then tl pushed else pushed)"

definition undoLastAnnotationChange :: "Editor \<Rightarrow> Editor" where
  "undoLastAnnotationChange st =
     (if undoStackRef st = [] then st
      else st\<lparr>undoStackRef := butlast (undoStackRef st),
              annotations := last (undoStackRef st),
              selectedIds := []\<rparr>)"

text \<open>
  The updater \<open>setAnnotations((prev) => { pushUndoSnapshot(prev); return [...prev, newShape]; })\<close>
  followed by \<open>setSelectedIds([newShape.id])\<close>, shared by the three finalize functions.
\<close>

definition commitShape :: "Editor \<Rightarrow> AnnotationShape \<Rightarrow> Editor" where
  "commitShape st newShape =
     st\<lparr>undoStackRef := pushUndoSnapshot (undoStackRef st) (annotations st),
        annotations := annotations st @ [newShape],
        selectedIds := [shape_id newShape]\<rparr>"

subsection \<open>Hit-testing and rectangle selection\<close>

text \<open>
  \<open>findAnnotationAt\<close>: the loop runs \<open>index\<close> from \<open>annotations.length - 1\<close> down to \<open>0\<close>;
  \<open>findAnnotationAt_from anns point n\<close> is the loop with \<open>n\<close> indices left, at \<open>index = n - 1\<close>.
\<close>

fun findAnnotationAt_from :: "AnnotationShape list \<Rightarrow> AnnotationPoint \<Rightarrow> nat \<Rightarrow> string option" where
  "findAnnotationAt_from anns point 0 = None"
| "findAnnotationAt_from anns point (Suc index) =
     (let shape = anns ! index
      in if (case shape_bbox shape of
               Some b \<Rightarrow> pt_x point \<ge> rect_x b \<and> pt_x point \<le> rect_x b + rect_width b \<and>
                         pt_y point \<ge> rect_y b \<and> pt_y point \<le> rect_y b + rect_height b
             | None \<Rightarrow> False)
         then Some (shape_id shape)
         else if (case shape_points shape of
                    Some ps \<Rightarrow> length ps \<ge> 3 \<and> isPointInPolygon point ps
                  | None \<Rightarrow> False)
         then Some (shape_id shape)
         else if shape_type shape = Freehand \<and>
                 (case shape_points shape of
                    Some ps \<Rightarrow> length ps \<ge> 2 \<and> isPointNearPolyline point ps 8
                  | None \<Rightarrow> False)
         then Some (shape_id shape)
         else findAnnotationAt_from anns point index)"

definition findAnnotationAt :: "AnnotationShape list \<Rightarrow> AnnotationPoint \<Rightarrow> string option" where
  "findAnnotationAt anns point = findAnnotationAt_from anns point (length anns)"

text \<open>
  The test \<open>if (found)\<close> on a \<open>string | null\<close>: \<open>null\<close> and the empty string are falsy.
\<close>

definition truthy_id :: "string option \<Rightarrow> bool" where
  "truthy_id found = (case found of None \<Rightarrow> False | Some i \<Rightarrow> i \<noteq> [])"

text \<open>The ids of the shapes whose bounds intersect the selection rectangle (\<open>handleMouseUp\<close>).\<close>

definition selectionMatches :: "Rect \<Rightarrow> AnnotationShape list \<Rightarrow> string list" where
  "selectionMatches rect anns =
     map shape_id
       (filter (\<lambda>shape. case computeShapeBounds shape of
                           Some bounds \<Rightarrow> rectsIntersect rect bounds
                         | None \<Rightarrow> False)
          anns)"

subsection \<open>Drawing handlers\<close>

text \<open>
  \<open>generateAnnotationId()\<close> draws a random identifier; the handlers that may commit a shape
  take the identifier it would return as the argument \<open>newId\<close>.
\<close>

definition appendFreehandPoint :: "Editor \<Rightarrow> AnnotationPoint \<Rightarrow> bool \<Rightarrow> Editor" where
  "appendFreehandPoint st point force =
     (let pts = freehandPointsRef st;
          minDistance = 2
      in if pts = [] \<or> force \<or>
            hypot (pt_x point - pt_x (last pts)) (pt_y point - pt_y (last pts)) \<ge> minDistance
         then st\<lparr>freehandPointsRef := pts @ [point],
                 draftShape := Some \<lparr>shape_id = ''draft-freehand'', shape_type = Freehand,
                                      shape_color = Some (drawingColorRef st), shape_label = None,
                                      shape_points = Some (pts @ [point]), shape_bbox = None\<rparr>\<rparr>
         else st)"

definition finalizeFreehand :: "Editor \<Rightarrow> string \<Rightarrow> Editor" where
  "finalizeFreehand st newId =
     (let pts = freehandPointsRef st
      in if length pts < 2
         then st\<lparr>freehandPointsRef := [], draftShape := None, isDrawing := False,
                 startPos := None\<rparr>
         else
           let newShape = \<lparr>shape_id = newId, shape_type = Freehand,
                           shape_color = Some (drawingColorRef st), shape_label = None,
                           shape_points = Some (ensureClosed pts FREEHAND_CLOSE_DISTANCE),
                           shape_bbox = None\<rparr>
           in (commitShape st newShape)
                \<lparr>freehandPointsRef := [], draftShape := None, isDrawing := False,
                 startPos := None\<rparr>)"

definition finalizePolygon :: "Editor \<Rightarrow> AnnotationPoint list \<Rightarrow> string \<Rightarrow> Editor" where
  "finalizePolygon st pts newId =
     (if length pts < 3 then st
      else
        let newShape = \<lparr>shape_id = newId, shape_type = Polygon,
                        shape_color = Some (drawingColorRef st), shape_label = None,
                        shape_points = Some (ensureClosed pts POLYGON_CLOSE_DISTANCE),
                        shape_bbox = None\<rparr>
        in (commitShape st newShape)\<lparr>polygonPoints := []\<rparr>)"

definition finalizeBoundingBox :: "Editor \<Rightarrow> AnnotationPoint \<Rightarrow> string \<Rightarrow> Editor" where
  "finalizeBoundingBox st coords newId =
     (case startPos st of
        None \<Rightarrow> st
      | Some start \<Rightarrow>
          let width = \<bar>pt_x coords - pt_x start\<bar>;
              height = \<bar>pt_y coords - pt_y start\<bar>
          in if width < MIN_BOX_SIZE \<or> height < MIN_BOX_SIZE then st
             else
               let newShape = \<lparr>shape_id = newId, shape_type = Bbox,
                               shape_color = Some (currentColor st), shape_label = None,
                               shape_points = None,
                               shape_bbox = Some \<lparr>rect_x = min (pt_x start) (pt_x coords),
                                                  rect_y = min (pt_y start) (pt_y coords),
                                                  rect_width = width, rect_height = height\<rparr>\<rparr>
               in commitShape st newShape)"

definition handleMouseDown :: "Editor \<Rightarrow> AnnotationPoint \<Rightarrow> bool \<Rightarrow> string \<Rightarrow> Editor" where
  "handleMouseDown st coords shiftKey newId =
     (case tool st of
        ToolSelect \<Rightarrow>
          st\<lparr>selectionStartRef := Some coords, isDrawing := True,
             selectionRect := Some \<lparr>rect_x = pt_x coords, rect_y = pt_y coords,
                                     rect_width = 0, rect_height = 0\<rparr>,
             selectedIds := (if \<not> shiftKey then [] else selectedIds st)\<rparr>
      | ToolErase \<Rightarrow>
          let found = findAnnotationAt (annotations st) coords
          in if truthy_id found
             then st\<lparr>undoStackRef := pushUndoSnapshot (undoStackRef st) (annotations st),
                     annotations := filter (\<lambda>shape. Some (shape_id shape) \<noteq> found) (annotations st),
                     selectedIds := filter (\<lambda>i. Some i \<noteq> found) (selectedIds st)\<rparr>
             else st
      | ToolBbox \<Rightarrow>
          st\<lparr>isDrawing := True, drawingColorRef := currentColor st, startPos := Some coords,
             draftShape := Some \<lparr>shape_id = ''draft-bbox'', shape_type = Bbox,
                                  shape_color = Some (currentColor st), shape_label = None,
                                  shape_points = None,
                                  shape_bbox = Some \<lparr>rect_x = pt_x coords, rect_y = pt_y coords,
                                                     rect_width = 0, rect_height = 0\<rparr>\<rparr>\<rparr>
      | ToolFreehand \<Rightarrow>
          appendFreehandPoint
            (st\<lparr>isDrawing := True, drawingColorRef := currentColor st, freehandPointsRef := []\<rparr>)
            coords True
      | ToolPolygon \<Rightarrow>
          let st1 = (if polygonPoints st = [] then st\<lparr>drawingColorRef := currentColor st\<rparr> else st)
          in if length (polygonPoints st) \<ge> 3 \<and>
                hypot (pt_x coords - pt_x (polygonPoints st ! 0))
                      (pt_y coords - pt_y (polygonPoints st ! 0)) \<le> POLYGON_CLOSE_DISTANCE
             then finalizePolygon st1 (polygonPoints st) newId
             else st1\<lparr>polygonPoints := polygonPoints st @ [coords]\<rparr>)"

definition draftBbox :: "Editor \<Rightarrow> AnnotationPoint \<Rightarrow> AnnotationPoint \<Rightarrow> AnnotationShape" where
  "draftBbox st start coords =
     \<lparr>shape_id = ''draft-bbox'', shape_type = Bbox, shape_color = Some (drawingColorRef st),
      shape_label = None, shape_points = None,
      shape_bbox = Some \<lparr>rect_x = min (pt_x start) (pt_x coords),
                         rect_y = min (pt_y start) (pt_y coords),
                         rect_width = \<bar>pt_x coords - pt_x start\<bar>,
                         rect_height = \<bar>pt_y coords - pt_y start\<bar>\<rparr>\<rparr>"

definition handleMouseMove :: "Editor \<Rightarrow> AnnotationPoint \<Rightarrow> Editor" where
  "handleMouseMove st coords =
     (if tool st = ToolSelect \<and> selectionStartRef st \<noteq> None
      then st\<lparr>selectionRect := Some (normalizeRect (the (selectionStartRef st)) coords)\<rparr>
      else if \<not> isDrawing st then st
      else if tool st = ToolBbox \<and> startPos st \<noteq> None
      then st\<lparr>draftShape := Some (draftBbox st (the (startPos st)) coords)\<rparr>
      else if tool st = ToolFreehand then appendFreehandPoint st coords False
      else st)"

text \<open>
  \<open>Array.from(new Set([...prev, ...matches]))\<close>: a \<open>Set\<close> keeps the first occurrence of
  each element, in insertion order.
\<close>

definition array_from_set :: "string list \<Rightarrow> string list" where
  "array_from_set xs = rev (remdups (rev xs))"

definition handleMouseUp :: "Editor \<Rightarrow> AnnotationPoint \<Rightarrow> bool \<Rightarrow> string \<Rightarrow> Editor" where
  "handleMouseUp st coords shiftKey newId =
     (if tool st = ToolSelect then
        let start = selectionStartRef st;
            rect = (if selectionRect st \<noteq> None \<and> start \<noteq> None then selectionRect st
                    else if start \<noteq> None then Some (normalizeRect (the start) coords)
                    else None);
            st1 = st\<lparr>selectionStartRef := None, selectionRect := None, isDrawing := False\<rparr>
        in if start = None then st1
           else
             let minDimension = (case rect of Some r \<Rightarrow> max (rect_width r) (rect_height r)
                                 | None \<Rightarrow> 0)
             in if rect = None \<or> minDimension < 5 then
                  let found = findAnnotationAt (annotations st) coords
                  in if truthy_id found then
                       st1\<lparr>selectedIds :=
                             (if shiftKey then
                                (if the found \<in> set (selectedIds st)
                                 then filter (\<lambda>i. i \<noteq> the found) (selectedIds st)
                                 else selectedIds st @ [the found])
                              else [the found])\<rparr>
                     else if \<not> shiftKey then st1\<lparr>selectedIds := []\<rparr>
                     else st1
                else
                  let matches = selectionMatches (the rect) (annotations st)
                  in if length matches > 0 then
                       st1\<lparr>selectedIds :=
                             (if shiftKey then array_from_set (selectedIds st @ matches)
                              else matches)\<rparr>
                     else if \<not> shiftKey then st1\<lparr>selectedIds := []\<rparr>
                     else st1
      else if \<not> isDrawing st then st
      else if tool st = ToolBbox then
        (finalizeBoundingBox st coords newId)
          \<lparr>isDrawing := False, startPos := None, draftShape := None\<rparr>
      else if tool st = ToolFreehand then
        finalizeFreehand (appendFreehandPoint st coords True) newId
      else st)"

definition handleMouseLeave :: "Editor \<Rightarrow> AnnotationPoint \<Rightarrow> bool \<Rightarrow> string \<Rightarrow> Editor" where
  "handleMouseLeave st coords shiftKey newId =
     (if tool st = ToolSelect \<and> selectionStartRef st \<noteq> None
      then handleMouseUp st coords shiftKey newId
      else if \<not> isDrawing st then st
      else
        let st1 = (if tool st = ToolBbox then handleMouseUp st coords shiftKey newId else st)
        in if tool st = ToolFreehand then finalizeFreehand st1 newId else st1)"

definition handleFinishPolygon :: "Editor \<Rightarrow> string \<Rightarrow> Editor" where
  "handleFinishPolygon st newId = finalizePolygon st (polygonPoints st) newId"

definition handleUndoPolygonPoint :: "Editor \<Rightarrow> Editor" where
  "handleUndoPolygonPoint st = st\<lparr>polygonPoints := butlast (polygonPoints st)\<rparr>"

definition handleClearPolygon :: "Editor \<Rightarrow> Editor" where
  "handleClearPolygon st = st\<lparr>polygonPoints := []\<rparr>"

definition handleDeleteSelected :: "Editor \<Rightarrow> Editor" where
  "handleDeleteSelected st =
     (if length (selectedIds st) = 0 then st
      else st\<lparr>undoStackRef := pushUndoSnapshot (undoStackRef st) (annotations st),
              annotations := filter (\<lambda>shape. shape_id shape \<notin> set (selectedIds st)) (annotations st),
              selectedIds := []\<rparr>)"

text \<open>
  The \<open>keydown\<close> handler once the key is the undo chord and no editable element has the
  focus: the polygon in progress loses its last vertex, otherwise the history is used.
\<close>

definition handleKeyDown_undo :: "Editor \<Rightarrow> Editor" where
  "handleKeyDown_undo st =
     (if tool st = ToolPolygon \<and> length (polygonPoints st) > 0
      then st\<lparr>polygonPoints := butlast (polygonPoints st)\<rparr>
      else undoLastAnnotationChange st)"

subsection \<open>Effects and the event loop\<close>

text \<open>
  The effect on \<open>[tool]\<close> runs when the tool has changed and resets the transient state;
  \<open>setTool\<close> with the tool already active renders nothing anew.
\<close>

definition setTool :: "Editor \<Rightarrow> Tool \<Rightarrow> Editor" where
  "setTool st t =
     (if t = tool st then st
      else st\<lparr>tool := t, isDrawing := False, startPos := None, draftShape := None,
              polygonPoints := [], selectionRect := None, selectionStartRef := None,
              freehandPointsRef := [],
              selectedIds := (if t = ToolSelect then selectedIds st else [])\<rparr>)"

definition setCurrentColor :: "Editor \<Rightarrow> string \<Rightarrow> Editor" where
  "setCurrentColor st c = st\<lparr>currentColor := c\<rparr>"

text \<open>
  The effect on \<open>[currentColor, isDrawing, polygonPoints.length]\<close> copies the palette colour
  into \<open>drawingColorRef\<close> while no draw is in progress. It is applied after every event:
  when none of its dependencies changed it would not run, and then it has nothing to do,
  because the only other writes to the ref store \<open>currentColor\<close> as well.
\<close>

definition syncDrawingColor :: "Editor \<Rightarrow> Editor" where
  "syncDrawingColor st =
     (if \<not> isDrawing st \<and> length (polygonPoints st) = 0
      then st\<lparr>drawingColorRef := currentColor st\<rparr>
      else st)"

datatype Event =
    MouseDown AnnotationPoint bool string
  | MouseMove AnnotationPoint
  | MouseUp AnnotationPoint bool string
  | MouseLeave AnnotationPoint bool string
  | FinishPolygon string
  | UndoPolygonPoint
  | ClearPolygon
  | DeleteSelected
  | UndoKey
  | SetTool Tool
  | SetCurrentColor string

text \<open>
  The polygon buttons are rendered only while the polygon tool is active, and a disabled
  button fires no click: finish needs three vertices, undo-vertex and clear need one,
  delete needs a selection.
\<close>

fun handleEvent :: "Editor \<Rightarrow> Event \<Rightarrow> Editor" where
  "handleEvent st (MouseDown coords shiftKey newId) = handleMouseDown st coords shiftKey newId"
| "handleEvent st (MouseMove coords) = handleMouseMove st coords"
| "handleEvent st (MouseUp coords shiftKey newId) = handleMouseUp st coords shiftKey newId"
| "handleEvent st (MouseLeave coords shiftKey newId) = handleMouseLeave st coords shiftKey newId"
| "handleEvent st (FinishPolygon newId) =
     (if tool st = ToolPolygon \<and> \<not> length (polygonPoints st) < 3
      then handleFinishPolygon st newId else st)"
| "handleEvent st UndoPolygonPoint =
     (if tool st = ToolPolygon \<and> length (polygonPoints st) \<noteq> 0
      then handleUndoPolygonPoint st else st)"
| "handleEvent st ClearPolygon =
     (if tool st = ToolPolygon \<and> length (polygonPoints st) \<noteq> 0
      then handleClearPolygon st else st)"
| "handleEvent st DeleteSelected =
     (if length (selectedIds st) \<noteq> 0 then handleDeleteSelected st else st)"
| "handleEvent st UndoKey = handleKeyDown_undo st"
| "handleEvent st (SetTool t) = setTool st t"
| "handleEvent st (SetCurrentColor c) = setCurrentColor st c"

definition step :: "Editor \<Rightarrow> Event \<Rightarrow> Editor" where
  "step st e = syncDrawingColor (handleEvent st e)"

definition run :: "Editor \<Rightarrow> Event list \<Rightarrow> Editor" where
  "run st events = foldl step st events"

subsection \<open>Predicates used in the statements\<close>

text \<open>
  The hit-test as the specification words it: a shape carrying a bbox is hit inside its
  rectangle, edges included; a shape with at least three points is hit by the ray cast;
  a freehand shape with at least two points is hit within 8 px of its polyline. The
  topmost hit is the first one in reverse insertion order.
\<close>

definition pointInRectInclusive :: "AnnotationPoint \<Rightarrow> Rect \<Rightarrow> bool" where
  "pointInRectInclusive point r =
     (rect_x r \<le> pt_x point \<and> pt_x point \<le> rect_x r + rect_width r \<and>
      rect_y r \<le> pt_y point \<and> pt_y point \<le> rect_y r + rect_height r)"

definition spec_shapeHit :: "AnnotationPoint \<Rightarrow> AnnotationShape \<Rightarrow> bool" where
  "spec_shapeHit point shape =
     ((case shape_bbox shape of Some r \<Rightarrow> pointInRectInclusive point r | None \<Rightarrow> False) \<or>
      (case shape_points shape of
         Some ps \<Rightarrow> 3 \<le> length ps \<and> isPointInPolygon point ps | None \<Rightarrow> False) \<or>
      (shape_type shape = Freehand \<and>
       (case shape_points shape of
          Some ps \<Rightarrow> 2 \<le> length ps \<and> isPointNearPolyline point ps 8 | None \<Rightarrow> False)))"

definition spec_hitTest :: "AnnotationShape list \<Rightarrow> AnnotationPoint \<Rightarrow> string option" where
  "spec_hitTest anns point = map_option shape_id (find (spec_shapeHit point) (rev anns))"

text \<open>
  The data-model invariant: exactly one of \<open>bbox\<close> and \<open>points\<close> is populated, the one that
  the shape's type names.
\<close>

definition wellFormed :: "AnnotationShape \<Rightarrow> bool" where
  "wellFormed shape =
     (case shape_type shape of
        Bbox \<Rightarrow> shape_bbox shape \<noteq> None \<and> shape_points shape = None
      | Polygon \<Rightarrow> shape_bbox shape = None \<and> shape_points shape \<noteq> None
      | Freehand \<Rightarrow> shape_bbox shape = None \<and> shape_points shape \<noteq> None)"

text \<open>A shape of the external input that carries neither a bbox nor points.\<close>

definition malformed :: "AnnotationShape \<Rightarrow> bool" where
  "malformed shape = (shape_bbox shape = None \<and> shape_points shape = None)"

text \<open>Adding shapes one at a time, each through the commit that the finalizers share.\<close>

definition addShapes :: "Editor \<Rightarrow> AnnotationShape list \<Rightarrow> Editor" where
  "addShapes st shapes = foldl commitShape st shapes"

text \<open>A polygon or freehand shape with at least two points; bbox shapes are not constrained.\<close>

definition pointShapeOk :: "AnnotationShape \<Rightarrow> bool" where
  "pointShapeOk shape =
     (if shape_type shape = Bbox then True
      else (case shape_points shape of Some ps \<Rightarrow> 2 \<le> length ps | None \<Rightarrow> False))"

definition collectionOk :: "AnnotationShape list \<Rightarrow> bool" where
  "collectionOk anns = list_all pointShapeOk anns"

definition editorOk :: "Editor \<Rightarrow> bool" where
  "editorOk st = (collectionOk (annotations st) \<and> list_all collectionOk (undoStackRef st))"

section \<open>Properties\<close>

subsection \<open>Distances and copies\<close>

lemma hypot_nonneg: "0 \<le> hypot a b"
  by (simp add: hypot_def)

lemma hypot_eq_0_iff: "hypot a b = 0 \<longleftrightarrow> a = 0 \<and> b = 0"
  by (simp add: hypot_def sum_power2_eq_zero_iff)

lemma hypot_le_iff: "hypot a b \<le> t \<longleftrightarrow> 0 \<le> t \<and> a\<^sup>2 + b\<^sup>2 \<le> t\<^sup>2"
proof (cases "0 \<le> t")
  case True
  then show ?thesis
    unfolding hypot_def using real_sqrt_le_iff [of "a\<^sup>2 + b\<^sup>2" "t\<^sup>2"] by simp
next
  case False
  then have "t < hypot a b" using hypot_nonneg [of a b] by linarith
  with False show ?thesis by simp
qed

lemma hypot_ge_iff: "t \<le> hypot a b \<longleftrightarrow> t \<le> 0 \<or> t\<^sup>2 \<le> a\<^sup>2 + b\<^sup>2"
proof (cases "0 \<le> t")
  case True
  then show ?thesis
    unfolding hypot_def using real_sqrt_le_iff [of "t\<^sup>2" "a\<^sup>2 + b\<^sup>2"]
    by (auto simp: power2_eq_square zero_le_mult_iff)
next
  case False
  then have "t \<le> hypot a b" using hypot_nonneg [of a b] by linarith
  with False show ?thesis by simp
qed

lemma clonePoint_id: "clonePoint p = p"
  by (simp add: clonePoint_def)

lemma cloneRect_id: "cloneRect r = r"
  by (simp add: cloneRect_def)

lemma cloneAnnotations_id: "cloneAnnotations shapes = shapes"
proof -
  have "map clonePoint ps = ps" for ps
    by (induction ps) (simp_all add: clonePoint_id)
  then have p: "map_option (map clonePoint) v = v" for v
    by (cases v) simp_all
  have r: "map_option cloneRect v = v" for v
    by (cases v) (simp_all add: cloneRect_id)
  show ?thesis
    by (induction shapes) (simp_all add: cloneAnnotations_def p r)
qed

lemma ensureClosed_short: "length pts < 2 \<Longrightarrow> ensureClosed pts t = pts"
  by (simp add: ensureClosed_def)

lemma point_eqI: "pt_x p = pt_x q \<Longrightarrow> pt_y p = pt_y q \<Longrightarrow> (p::AnnotationPoint) = q"
  by simp

lemma ensureClosed_hd_last:
  assumes "2 \<le> length pts"
  shows "hd (ensureClosed pts t) = pts ! 0" and "last (ensureClosed pts t) = pts ! 0"
proof -
  from assms have ne: "pts \<noteq> []" by auto
  from assms have bl: "butlast pts \<noteq> []"
    by (cases pts) (auto simp: Suc_le_eq)
  have hd0: "hd pts = pts ! 0" using ne by (simp add: hd_conv_nth)
  have hdb: "hd (butlast pts) = pts ! 0"
    using bl ne by (cases pts) auto
  have lst: "last pts = pts ! (length pts - 1)" using ne by (simp add: last_conv_nth)
  show "hd (ensureClosed pts t) = pts ! 0"
    using assms ne bl hd0 hdb by (simp add: ensureClosed_def Let_def)
  show "last (ensureClosed pts t) = pts ! 0"
    using assms ne bl lst by (auto simp add: ensureClosed_def Let_def hypot_eq_0_iff)
qed

lemma ensureClosed_length:
  "length pts \<le> length (ensureClosed pts t) \<and> length (ensureClosed pts t) \<le> length pts + 1"
  by (auto simp add: ensureClosed_def Let_def)

subsection \<open>Closing a path\<close>

text \<open>
  C3. \<open>ensureClosed\<close> returns a path whose first and last points are equal whenever the
  input has at least two points, for every threshold, and returns a shorter input
  unchanged. With \<open>d\<close> the distance between the first and the last point: \<open>d = 0\<close> returns
  the input; \<open>d \<le> threshold\<close> replaces the last point by the first; otherwise the first
  point is appended.
\<close>

theorem ensureClosed_closes:
  "(2 \<le> length pts \<longrightarrow> hd (ensureClosed pts t) = last (ensureClosed pts t)) \<and>
   (length pts < 2 \<longrightarrow> ensureClosed pts t = pts) \<and>
   (2 \<le> length pts \<longrightarrow>
      (let d = hypot (pt_x (last pts) - pt_x (hd pts)) (pt_y (last pts) - pt_y (hd pts))
       in (d = 0 \<longrightarrow> ensureClosed pts t = pts) \<and>
          (d \<le> t \<longrightarrow> ensureClosed pts t = butlast pts @ [hd pts]) \<and>
          (d \<noteq> 0 \<and> \<not> d \<le> t \<longrightarrow> ensureClosed pts t = pts @ [hd pts])))"
proof (intro conjI impI)
  assume "2 \<le> length pts"
  then show "hd (ensureClosed pts t) = last (ensureClosed pts t)"
    by (simp add: ensureClosed_hd_last)
next
  assume "length pts < 2"
  then show "ensureClosed pts t = pts" by (rule ensureClosed_short)
next
  assume len: "2 \<le> length pts"
  then have ne: "pts \<noteq> []" by auto
  define d where "d = hypot (pt_x (last pts) - pt_x (hd pts)) (pt_y (last pts) - pt_y (hd pts))"
  have h: "pts ! 0 = hd pts" using ne by (simp add: hd_conv_nth)
  have l: "pts ! (length pts - 1) = last pts" using ne by (simp add: last_conv_nth)
  have unfolded: "ensureClosed pts t =
      (if d = 0 then pts else if d \<le> t then butlast pts @ [hd pts] else pts @ [hd pts])"
    using len unfolding ensureClosed_def Let_def h l d_def by simp
  have same: "butlast pts @ [hd pts] = pts" if "d = 0"
  proof -
    from that have "last pts = hd pts" by (simp add: d_def hypot_eq_0_iff)
    then show ?thesis using ne append_butlast_last_id [of pts] by simp
  qed
  have "(d = 0 \<longrightarrow> ensureClosed pts t = pts) \<and>
        (d \<le> t \<longrightarrow> ensureClosed pts t = butlast pts @ [hd pts]) \<and>
        (d \<noteq> 0 \<and> \<not> d \<le> t \<longrightarrow> ensureClosed pts t = pts @ [hd pts])"
    using same by (simp add: unfolded)
  then show "let d = hypot (pt_x (last pts) - pt_x (hd pts)) (pt_y (last pts) - pt_y (hd pts))
        in (d = 0 \<longrightarrow> ensureClosed pts t = pts) \<and>
           (d \<le> t \<longrightarrow> ensureClosed pts t = butlast pts @ [hd pts]) \<and>
           (d \<noteq> 0 \<and> \<not> d \<le> t \<longrightarrow> ensureClosed pts t = pts @ [hd pts])"
    unfolding d_def Let_def .
qed

theorem ensureClosed_closes_witness:
  "ensureClosed [\<lparr>pt_x = 0, pt_y = 0\<rparr>, \<lparr>pt_x = 10, pt_y = 0\<rparr>, \<lparr>pt_x = 3, pt_y = 4\<rparr>] 12
     = [\<lparr>pt_x = 0, pt_y = 0\<rparr>, \<lparr>pt_x = 10, pt_y = 0\<rparr>, \<lparr>pt_x = 0, pt_y = 0\<rparr>] \<and>
   hd (ensureClosed [\<lparr>pt_x = 0, pt_y = 0\<rparr>, \<lparr>pt_x = 10, pt_y = 0\<rparr>, \<lparr>pt_x = 3, pt_y = 4\<rparr>] 12)
     = last (ensureClosed [\<lparr>pt_x = 0, pt_y = 0\<rparr>, \<lparr>pt_x = 10, pt_y = 0\<rparr>, \<lparr>pt_x = 3, pt_y = 4\<rparr>] 12) \<and>
   ensureClosed [\<lparr>pt_x = 5, pt_y = 5\<rparr>] 12 = [\<lparr>pt_x = 5, pt_y = 5\<rparr>]"
  using ensureClosed_closes [of "[\<lparr>pt_x = 0, pt_y = 0\<rparr>, \<lparr>pt_x = 10, pt_y = 0\<rparr>, \<lparr>pt_x = 3, pt_y = 4\<rparr>]" 12]
        ensureClosed_closes [of "[\<lparr>pt_x = 5, pt_y = 5\<rparr>]" 12]
  by (simp add: hypot_le_iff)

subsection \<open>Point in polygon\<close>

lemma isPointInPolygon_loop_checked_total:
  "isPointInPolygon_loop_checked point polygon i j inside =
     Inr (isPointInPolygon_loop point polygon i j inside)"
proof (induction "length polygon - i" arbitrary: i j inside)
  case 0
  then have "\<not> i < length polygon" by simp
  then show ?case
    by (simp add: isPointInPolygon_loop_checked.simps isPointInPolygon_loop.simps)
next
  case (Suc k)
  then have lt: "i < length polygon" and k: "k = length polygon - Suc i" by linarith+
  have IH: "isPointInPolygon_loop_checked point polygon (Suc i) j' inside' =
     Inr (isPointInPolygon_loop point polygon (Suc i) j' inside')" for j' inside'
    using Suc.hyps(1) [OF k] .
  show ?case
    apply (subst isPointInPolygon_loop_checked.simps)
    apply (subst isPointInPolygon_loop.simps)
    using lt by (auto simp: Let_def IH)
qed

text \<open>
  C7. The ray cast never divides by zero: the division by \<open>yj - yi\<close> is reached only when
  \<open>yi\<close> and \<open>yj\<close> lie on opposite sides of the query point's \<open>y\<close>, so the loop that stops
  at a zero divisor always returns a result, the one of the plain loop, on every polygon
  (empty, with repeated vertices, with horizontal edges).
\<close>

theorem isPointInPolygon_never_divides_by_zero:
  "isPointInPolygon_checked point polygon = Inr (isPointInPolygon point polygon)"
  by (simp add: isPointInPolygon_checked_def isPointInPolygon_def
        isPointInPolygon_loop_checked_total)

theorem isPointInPolygon_never_divides_by_zero_witness:
  "isPointInPolygon_checked \<lparr>pt_x = 5, pt_y = 0\<rparr>
     [\<lparr>pt_x = 0, pt_y = 0\<rparr>, \<lparr>pt_x = 10, pt_y = 0\<rparr>, \<lparr>pt_x = 10, pt_y = 0\<rparr>,
      \<lparr>pt_x = 10, pt_y = 10\<rparr>, \<lparr>pt_x = 0, pt_y = 10\<rparr>] = Inr True"
  using isPointInPolygon_never_divides_by_zero [of "\<lparr>pt_x = 5, pt_y = 0\<rparr>"
     "[\<lparr>pt_x = 0, pt_y = 0\<rparr>, \<lparr>pt_x = 10, pt_y = 0\<rparr>, \<lparr>pt_x = 10, pt_y = 0\<rparr>,
      \<lparr>pt_x = 10, pt_y = 10\<rparr>, \<lparr>pt_x = 0, pt_y = 10\<rparr>]"]
  by (simp add: isPointInPolygon_def isPointInPolygon_loop.simps)

subsection \<open>Hit-testing\<close>

lemma findAnnotationAt_from_Suc:
  "findAnnotationAt_from anns point (Suc n) =
     (if spec_shapeHit point (anns ! n) then Some (shape_id (anns ! n))
      else findAnnotationAt_from anns point n)"
  by (auto simp add: Let_def spec_shapeHit_def pointInRectInclusive_def split: option.splits)

lemma findAnnotationAt_from_find:
  "n \<le> length anns \<Longrightarrow>
   findAnnotationAt_from anns point n =
     map_option shape_id (find (spec_shapeHit point) (rev (take n anns)))"
proof (induction n)
  case 0
  then show ?case by simp
next
  case (Suc n)
  then have lt: "n < length anns" by simp
  have tk: "rev (take (Suc n) anns) = anns ! n # rev (take n anns)"
    using lt by (simp add: take_Suc_conv_app_nth)
  have ih: "findAnnotationAt_from anns point n =
     map_option shape_id (find (spec_shapeHit point) (rev (take n anns)))"
    using Suc by simp
  show ?case
    unfolding tk findAnnotationAt_from_Suc ih by simp
qed

lemma findAnnotationAt_spec: "findAnnotationAt anns point = spec_hitTest anns point"
  by (simp add: findAnnotationAt_def spec_hitTest_def findAnnotationAt_from_find)

text \<open>
  C6. For every collection and query point, \<open>findAnnotationAt\<close> returns the id of the first
  shape, from the most recently added to the least recently added, that is hit: inside
  its bbox, edges included; or inside its polygon of at least three points by the ray
  cast; or, for a freehand shape of at least two points, within 8 px of its polyline. It
  returns nothing when no shape is hit.
\<close>

theorem findAnnotationAt_topmost_first:
  "findAnnotationAt anns point = spec_hitTest anns point"
  by (rule findAnnotationAt_spec)

theorem findAnnotationAt_topmost_first_witness:
  "findAnnotationAt
     [\<lparr>shape_id = ''a'', shape_type = Bbox, shape_color = None, shape_label = None,
       shape_points = None,
       shape_bbox = Some \<lparr>rect_x = 0, rect_y = 0, rect_width = 10, rect_height = 10\<rparr>\<rparr>,
      \<lparr>shape_id = ''b'', shape_type = Bbox, shape_color = None, shape_label = None,
       shape_points = None,
       shape_bbox = Some \<lparr>rect_x = 5, rect_y = 5, rect_width = 10, rect_height = 10\<rparr>\<rparr>]
     \<lparr>pt_x = 10, pt_y = 10\<rparr> = Some ''b''"
  using findAnnotationAt_topmost_first [of
     "[\<lparr>shape_id = ''a'', shape_type = Bbox, shape_color = None, shape_label = None,
       shape_points = None,
       shape_bbox = Some \<lparr>rect_x = 0, rect_y = 0, rect_width = 10, rect_height = 10\<rparr>\<rparr>,
      \<lparr>shape_id = ''b'', shape_type = Bbox, shape_color = None, shape_label = None,
       shape_points = None,
       shape_bbox = Some \<lparr>rect_x = 5, rect_y = 5, rect_width = 10, rect_height = 10\<rparr>\<rparr>]"
     "\<lparr>pt_x = 10, pt_y = 10\<rparr>"]
  by (simp add: spec_hitTest_def spec_shapeHit_def pointInRectInclusive_def)

text \<open>On shapes that satisfy the data-model invariant the rule reads by type.\<close>

lemma spec_shapeHit_by_type:
  "wellFormed shape \<Longrightarrow>
   spec_shapeHit point shape =
     (case shape_type shape of
        Bbox \<Rightarrow> pointInRectInclusive point (the (shape_bbox shape))
      | Polygon \<Rightarrow> 3 \<le> length (the (shape_points shape)) \<and>
                   isPointInPolygon point (the (shape_points shape))
      | Freehand \<Rightarrow>
          (3 \<le> length (the (shape_points shape)) \<and>
           isPointInPolygon point (the (shape_points shape))) \<or>
          (2 \<le> length (the (shape_points shape)) \<and>
           isPointNearPolyline point (the (shape_points shape)) 8))"
  by (cases "shape_type shape") (auto simp: wellFormed_def spec_shapeHit_def)

subsection \<open>Malformed shapes\<close>

lemma find_Some_mem: "find P xs = Some x \<Longrightarrow> x \<in> set xs \<and> P x"
  by (induction xs) (auto split: if_splits)

lemma find_skip:
  "\<not> P s \<Longrightarrow> find P (xs @ s # ys) = find P (xs @ ys)"
  by (induction xs) simp_all

lemma malformed_not_hit: "malformed shape \<Longrightarrow> \<not> spec_shapeHit point shape"
  by (simp add: malformed_def spec_shapeHit_def)

lemma malformed_bounds: "malformed shape \<Longrightarrow> computeShapeBounds shape = None"
  by (simp add: malformed_def computeShapeBounds_def)

lemma spec_hitTest_SomeD:
  "spec_hitTest anns point = Some i \<Longrightarrow>
   \<exists>s. s \<in> set anns \<and> shape_id s = i \<and> spec_shapeHit point s"
proof -
  assume "spec_hitTest anns point = Some i"
  then obtain s where f: "find (spec_shapeHit point) (rev anns) = Some s" and i: "shape_id s = i"
    by (auto simp: spec_hitTest_def)
  from f have "s \<in> set (rev anns)" and "spec_shapeHit point s"
    by (auto dest: find_Some_mem)
  with i show ?thesis by auto
qed

lemma selectionMatches_mem:
  "i \<in> set (selectionMatches rect anns) \<Longrightarrow>
   \<exists>s. s \<in> set anns \<and> shape_id s = i \<and> computeShapeBounds s \<noteq> None"
  by (auto simp: selectionMatches_def split: option.splits)

text \<open>
  C9. A shape with neither bbox nor points has no bounds, and it is inert: the hit-test and
  the rectangle selection give the same answer with the shape in the collection as
  without it, for every query point and rectangle. When no other shape carries its id,
  that id is never returned by the hit-test and never among the rectangle matches.
\<close>

theorem malformed_shape_inert:
  "malformed shape \<Longrightarrow>
   computeShapeBounds shape = None \<and>
   findAnnotationAt (before @ shape # after) point = findAnnotationAt (before @ after) point \<and>
   selectionMatches rect (before @ shape # after) = selectionMatches rect (before @ after) \<and>
   (shape_id shape \<notin> shape_id ` set (before @ after) \<longrightarrow>
      findAnnotationAt (before @ shape # after) point \<noteq> Some (shape_id shape) \<and>
      shape_id shape \<notin> set (selectionMatches rect (before @ shape # after)))"
proof -
  assume m: "malformed shape"
  have b: "computeShapeBounds shape = None" using m by (rule malformed_bounds)
  have nh: "\<not> spec_shapeHit point shape" using m by (rule malformed_not_hit)
  have "find (spec_shapeHit point) (rev after @ shape # rev before) =
        find (spec_shapeHit point) (rev after @ rev before)"
    using nh by (rule find_skip)
  then have h: "findAnnotationAt (before @ shape # after) point =
                findAnnotationAt (before @ after) point"
    unfolding findAnnotationAt_spec spec_hitTest_def by simp
  have s: "selectionMatches rect (before @ shape # after) = selectionMatches rect (before @ after)"
    by (simp add: selectionMatches_def b)
  have u: "findAnnotationAt (before @ shape # after) point \<noteq> Some (shape_id shape) \<and>
           shape_id shape \<notin> set (selectionMatches rect (before @ shape # after))"
    if fresh: "shape_id shape \<notin> shape_id ` set (before @ after)"
  proof
    show "findAnnotationAt (before @ shape # after) point \<noteq> Some (shape_id shape)"
    proof
      assume "findAnnotationAt (before @ shape # after) point = Some (shape_id shape)"
      then have "findAnnotationAt (before @ after) point = Some (shape_id shape)"
        by (simp only: h)
      then have "spec_hitTest (before @ after) point = Some (shape_id shape)"
        by (simp only: findAnnotationAt_spec)
      then obtain s' where "s' \<in> set (before @ after)" "shape_id s' = shape_id shape"
        using spec_hitTest_SomeD by blast
      then have "shape_id shape \<in> shape_id ` set (before @ after)" by (metis imageI)
      with fresh show False by contradiction
    qed
    show "shape_id shape \<notin> set (selectionMatches rect (before @ shape # after))"
    proof
      assume "shape_id shape \<in> set (selectionMatches rect (before @ shape # after))"
      then have "shape_id shape \<in> set (selectionMatches rect (before @ after))"
        by (simp only: s)
      then obtain s' where "s' \<in> set (before @ after)" "shape_id s' = shape_id shape"
        using selectionMatches_mem by blast
      then have "shape_id shape \<in> shape_id ` set (before @ after)" by (metis imageI)
      with fresh show False by contradiction
    qed
  qed
  from b h s u show ?thesis by blast
qed

theorem malformed_shape_inert_witness:
  "malformed \<lparr>shape_id = ''m'', shape_type = Polygon, shape_color = None, shape_label = None,
              shape_points = None, shape_bbox = None\<rparr> \<and>
   computeShapeBounds \<lparr>shape_id = ''m'', shape_type = Polygon, shape_color = None,
                       shape_label = None, shape_points = None, shape_bbox = None\<rparr> = None \<and>
   findAnnotationAt
     [\<lparr>shape_id = ''a'', shape_type = Bbox, shape_color = None, shape_label = None,
       shape_points = None,
       shape_bbox = Some \<lparr>rect_x = 0, rect_y = 0, rect_width = 10, rect_height = 10\<rparr>\<rparr>,
      \<lparr>shape_id = ''m'', shape_type = Polygon, shape_color = None, shape_label = None,
       shape_points = None, shape_bbox = None\<rparr>]
     \<lparr>pt_x = 5, pt_y = 5\<rparr> = Some ''a'' \<and>
   selectionMatches \<lparr>rect_x = 2, rect_y = 2, rect_width = 20, rect_height = 20\<rparr>
     [\<lparr>shape_id = ''a'', shape_type = Bbox, shape_color = None, shape_label = None,
       shape_points = None,
       shape_bbox = Some \<lparr>rect_x = 0, rect_y = 0, rect_width = 10, rect_height = 10\<rparr>\<rparr>,
      \<lparr>shape_id = ''m'', shape_type = Polygon, shape_color = None, shape_label = None,
       shape_points = None, shape_bbox = None\<rparr>] = [''a'']"
proof -
  have m: "malformed \<lparr>shape_id = ''m'', shape_type = Polygon, shape_color = None,
              shape_label = None, shape_points = None, shape_bbox = None\<rparr>"
    by (simp add: malformed_def)
  have a: "findAnnotationAt
     [\<lparr>shape_id = ''a'', shape_type = Bbox, shape_color = None, shape_label = None,
       shape_points = None,
       shape_bbox = Some \<lparr>rect_x = 0, rect_y = 0, rect_width = 10, rect_height = 10\<rparr>\<rparr>]
     \<lparr>pt_x = 5, pt_y = 5\<rparr> = Some ''a''"
    by (simp add: findAnnotationAt_def)
  have b: "selectionMatches \<lparr>rect_x = 2, rect_y = 2, rect_width = 20, rect_height = 20\<rparr>
     [\<lparr>shape_id = ''a'', shape_type = Bbox, shape_color = None, shape_label = None,
       shape_points = None,
       shape_bbox = Some \<lparr>rect_x = 0, rect_y = 0, rect_width = 10, rect_height = 10\<rparr>\<rparr>]
     = [''a'']"
    by (simp add: selectionMatches_def computeShapeBounds_def cloneRect_def rectsIntersect_def)
  show ?thesis
    using m a b
      malformed_shape_inert [OF m, of
        "[\<lparr>shape_id = ''a'', shape_type = Bbox, shape_color = None, shape_label = None,
           shape_points = None,
           shape_bbox = Some \<lparr>rect_x = 0, rect_y = 0, rect_width = 10, rect_height = 10\<rparr>\<rparr>]"
        "[]" "\<lparr>pt_x = 5, pt_y = 5\<rparr>"
        "\<lparr>rect_x = 2, rect_y = 2, rect_width = 20, rect_height = 20\<rparr>"]
    by simp
qed

subsection \<open>Undo\<close>

lemma pushUndoSnapshot_eq:
  "pushUndoSnapshot stack snap =
     (if length stack < 50 then stack @ [snap] else tl (stack @ [snap]))"
  by (simp add: pushUndoSnapshot_def cloneAnnotations_id MAX_UNDO_STACK_def Let_def)

lemma pushUndoSnapshot_window:
  "pushUndoSnapshot (drop (length L - 50) L) snap =
     drop (length (L @ [snap]) - 50) (L @ [snap])"
proof (cases "length L < 50")
  case True
  then show ?thesis by (simp add: pushUndoSnapshot_eq)
next
  case False
  then have ge: "50 \<le> length L" by simp
  then have len: "length (drop (length L - 50) L) = 50" by simp
  have "pushUndoSnapshot (drop (length L - 50) L) snap
          = tl (drop (length L - 50) L @ [snap])"
    using len by (simp add: pushUndoSnapshot_eq)
  also have "\<dots> = tl (drop (length L - 50) (L @ [snap]))"
    by simp
  also have "\<dots> = drop (Suc (length L - 50)) (L @ [snap])"
    by (simp only: drop_Suc tl_drop)
  also have "Suc (length L - 50) = length (L @ [snap]) - 50"
    using ge by simp
  finally show ?thesis .
qed

lemma addShapes_snoc: "addShapes st (xs @ [x]) = commitShape (addShapes st xs) x"
  by (simp add: addShapes_def)

lemma addShapes_state:
  assumes "undoStackRef st = drop (length L - 50) L"
  shows "annotations (addShapes st xs) = annotations st @ xs \<and>
         undoStackRef (addShapes st xs) =
           drop (length L + length xs - 50)
             (L @ map (\<lambda>k. annotations st @ take k xs) [0..<length xs])"
proof (induction xs rule: rev_induct)
  case Nil
  then show ?case using assms by (simp add: addShapes_def)
next
  case (snoc x xs)
  let ?L' = "L @ map (\<lambda>k. annotations st @ take k xs) [0..<length xs]"
  have a: "annotations (addShapes st xs) = annotations st @ xs"
    and u: "undoStackRef (addShapes st xs) = drop (length ?L' - 50) ?L'"
    using snoc by simp_all
  have m: "map (\<lambda>k. annotations st @ take k (xs @ [x])) [0..<length xs]
         = map (\<lambda>k. annotations st @ take k xs) [0..<length xs]"
    by (rule map_cong) simp_all
  have L'': "L @ map (\<lambda>k. annotations st @ take k (xs @ [x])) [0..<length (xs @ [x])]
         = ?L' @ [annotations st @ xs]"
    by (simp add: m)
  have "undoStackRef (addShapes st (xs @ [x]))
          = pushUndoSnapshot (drop (length ?L' - 50) ?L') (annotations st @ xs)"
    by (simp add: addShapes_snoc commitShape_def a u)
  also have "\<dots> = drop (length (?L' @ [annotations st @ xs]) - 50) (?L' @ [annotations st @ xs])"
    by (rule pushUndoSnapshot_window)
  finally have u': "undoStackRef (addShapes st (xs @ [x])) =
           drop (length L + length (xs @ [x]) - 50)
             (L @ map (\<lambda>k. annotations st @ take k (xs @ [x])) [0..<length (xs @ [x])])"
    unfolding L'' by simp
  have a': "annotations (addShapes st (xs @ [x])) = annotations st @ xs @ [x]"
    by (simp add: addShapes_snoc commitShape_def a)
  from a' u' show ?case by blast
qed

lemma undo_iterate:
  "annotations ((undoLastAnnotationChange ^^ k) st) =
     (if k = 0 \<or> undoStackRef st = [] then annotations st
      else undoStackRef st ! (length (undoStackRef st) - min k (length (undoStackRef st))))"
proof (induction k arbitrary: st)
  case 0
  then show ?case by simp
next
  case (Suc k)
  have step: "(undoLastAnnotationChange ^^ Suc k) st =
              (undoLastAnnotationChange ^^ k) (undoLastAnnotationChange st)"
    by (simp add: funpow_swap1)
  show ?case
  proof (cases "undoStackRef st = []")
    case True
    then have "undoLastAnnotationChange st = st" by (simp add: undoLastAnnotationChange_def)
    then have "annotations ((undoLastAnnotationChange ^^ Suc k) st) =
               annotations ((undoLastAnnotationChange ^^ k) st)"
      by (simp only: step)
    then show ?thesis using True Suc [of st] by simp
  next
    case False
    define S where "S = undoStackRef st"
    have Sne: "S \<noteq> []" using False by (simp add: S_def)
    have st': "undoStackRef (undoLastAnnotationChange st) = butlast S"
              "annotations (undoLastAnnotationChange st) = last S"
      using False by (simp_all add: undoLastAnnotationChange_def S_def)
    have "annotations ((undoLastAnnotationChange ^^ Suc k) st) =
          (if k = 0 \<or> butlast S = [] then last S
           else butlast S ! (length (butlast S) - min k (length (butlast S))))"
      unfolding step Suc [of "undoLastAnnotationChange st"] st' ..
    also have "\<dots> = S ! (length S - min (Suc k) (length S))"
    proof -
      have pos: "0 < length S" using Sne by simp
      have bl: "(butlast S = []) = (length S = 1)"
        using Sne by (cases S) (auto split: if_splits)
      show ?thesis
      proof (cases "k = 0 \<or> butlast S = []")
        case True
        then have "k = 0 \<or> length S = 1" by (simp add: bl)
        then have "length S - min (Suc k) (length S) = length S - 1"
          using pos by (auto simp: min_def)
        then show ?thesis using True Sne by (simp add: last_conv_nth)
      next
        case False
        then have k: "0 < k" and n1: "length S \<noteq> 1"
          by (simp_all add: bl)
        have l: "2 \<le> length S" using pos n1 by linarith
        have i: "length (butlast S) - min k (length (butlast S)) < length (butlast S)"
          using k l unfolding length_butlast min_def by (cases "k \<le> length S - 1") simp_all
        have e: "length (butlast S) - min k (length (butlast S)) = length S - min (Suc k) (length S)"
          using k l unfolding length_butlast min_def by (cases "k \<le> length S - 1") auto
        show ?thesis using False nth_butlast [OF i] e by simp
      qed
    qed
    finally show ?thesis using False by (simp add: S_def)
  qed
qed

lemma fifty_one_adds_then_undos:
  assumes "length shapes = 51"
  shows "annotations ((undoLastAnnotationChange ^^ 51) (addShapes (initialEditor []) shapes))
         = [hd shapes]"
proof -
  have z: "undoStackRef (initialEditor []) = drop (length ([]::AnnotationShape list list) - 50) []"
    by (simp add: initialEditor_def)
  have u: "undoStackRef (addShapes (initialEditor []) shapes) =
           drop 1 (map (\<lambda>k. take k shapes) [0..<51])"
    using addShapes_state [OF z, of shapes] assms by (simp add: initialEditor_def)
  have len: "length (undoStackRef (addShapes (initialEditor []) shapes)) = 50"
    unfolding u by simp
  have ne: "undoStackRef (addShapes (initialEditor []) shapes) \<noteq> []"
    using len by auto
  have "annotations ((undoLastAnnotationChange ^^ 51) (addShapes (initialEditor []) shapes))
        = undoStackRef (addShapes (initialEditor []) shapes) ! 0"
    unfolding undo_iterate using ne len by simp
  also have "\<dots> = take 1 shapes"
    unfolding u by simp
  also have "\<dots> = [hd shapes]"
    using assms by (cases shapes) simp_all
  finally show ?thesis .
qed

text \<open>
  C2. The undo history is a window of the 50 most recent snapshots: \<open>pushUndoSnapshot\<close>
  appends, and drops the oldest entry once 50 are held. Hence, from an empty collection
  and an empty history, 51 single-shape additions followed by 51 undos leave exactly one
  shape, the first one added: the snapshot of the empty collection was evicted and the
  51st undo finds the history empty.
\<close>

theorem undo_stack_bounded_fifo:
  "(length stack < 50 \<longrightarrow> pushUndoSnapshot stack snap = stack @ [snap]) \<and>
   (50 \<le> length stack \<longrightarrow> pushUndoSnapshot stack snap = tl stack @ [snap]) \<and>
   (length stack \<le> 50 \<longrightarrow> length (pushUndoSnapshot stack snap) \<le> 50) \<and>
   (length shapes = 51 \<longrightarrow>
      length (undoStackRef (addShapes (initialEditor []) shapes)) = 50 \<and>
      annotations ((undoLastAnnotationChange ^^ 51) (addShapes (initialEditor []) shapes))
        = [hd shapes])"
proof (intro conjI impI)
  assume "length stack < 50"
  then show "pushUndoSnapshot stack snap = stack @ [snap]"
    by (simp add: pushUndoSnapshot_eq)
next
  assume "50 \<le> length stack"
  then show "pushUndoSnapshot stack snap = tl stack @ [snap]"
    by (cases stack) (simp_all add: pushUndoSnapshot_eq)
next
  assume "length stack \<le> 50"
  then show "length (pushUndoSnapshot stack snap) \<le> 50"
    by (simp add: pushUndoSnapshot_eq)
next
  assume len: "length shapes = 51"
  have z: "undoStackRef (initialEditor []) = drop (length ([]::AnnotationShape list list) - 50) []"
    by (simp add: initialEditor_def)
  show "length (undoStackRef (addShapes (initialEditor []) shapes)) = 50"
    using addShapes_state [OF z, of shapes] len by simp
next
  assume "length shapes = 51"
  then show "annotations ((undoLastAnnotationChange ^^ 51) (addShapes (initialEditor []) shapes))
        = [hd shapes]"
    by (rule fifty_one_adds_then_undos)
qed

theorem undo_stack_bounded_fifo_witness:
  "pushUndoSnapshot [[]] [] = [[], []] \<and>
   length (annotations ((undoLastAnnotationChange ^^ 51)
     (addShapes (initialEditor [])
        (map (\<lambda>n. \<lparr>shape_id = replicate n CHR ''i'', shape_type = Bbox, shape_color = None,
                     shape_label = None, shape_points = None,
                     shape_bbox = Some \<lparr>rect_x = 0, rect_y = 0,
                                        rect_width = 10, rect_height = 10\<rparr>\<rparr>)
           [0..<51])))) = 1"
  using undo_stack_bounded_fifo [of "[[]]" "[]"
     "map (\<lambda>n. \<lparr>shape_id = replicate n CHR ''i'', shape_type = Bbox, shape_color = None,
                     shape_label = None, shape_points = None,
                     shape_bbox = Some \<lparr>rect_x = 0, rect_y = 0,
                                        rect_width = 10, rect_height = 10\<rparr>\<rparr>)
           [0..<51]"]
  by simp

text \<open>
  C10. Collection-level undo clears the selection: with a non-empty history it replaces
  the collection by the most recent snapshot, removes that snapshot from the history and
  empties the selection, whatever was selected; with an empty history it changes nothing.
\<close>

theorem undo_clears_selection:
  "(undoStackRef st \<noteq> [] \<longrightarrow>
      annotations (undoLastAnnotationChange st) = last (undoStackRef st) \<and>
      selectedIds (undoLastAnnotationChange st) = [] \<and>
      undoStackRef (undoLastAnnotationChange st) = butlast (undoStackRef st)) \<and>
   (undoStackRef st = [] \<longrightarrow> undoLastAnnotationChange st = st)"
  by (simp add: undoLastAnnotationChange_def)

theorem undo_clears_selection_witness:
  "annotations (undoLastAnnotationChange
     ((initialEditor
       [\<lparr>shape_id = ''a'', shape_type = Bbox, shape_color = None, shape_label = None,
        shape_points = None,
        shape_bbox = Some \<lparr>rect_x = 0, rect_y = 0, rect_width = 10, rect_height = 10\<rparr>\<rparr>])
      \<lparr>selectedIds := [''a''], undoStackRef := [[]]\<rparr>)) = [] \<and>
   selectedIds (undoLastAnnotationChange
     ((initialEditor
       [\<lparr>shape_id = ''a'', shape_type = Bbox, shape_color = None, shape_label = None,
        shape_points = None,
        shape_bbox = Some \<lparr>rect_x = 0, rect_y = 0, rect_width = 10, rect_height = 10\<rparr>\<rparr>])
      \<lparr>selectedIds := [''a''], undoStackRef := [[]]\<rparr>)) = [] \<and>
   undoStackRef (undoLastAnnotationChange
     ((initialEditor
       [\<lparr>shape_id = ''a'', shape_type = Bbox, shape_color = None, shape_label = None,
        shape_points = None,
        shape_bbox = Some \<lparr>rect_x = 0, rect_y = 0, rect_width = 10, rect_height = 10\<rparr>\<rparr>])
      \<lparr>selectedIds := [''a''], undoStackRef := [[]]\<rparr>)) = [] \<and>
   undoLastAnnotationChange
     ((initialEditor
       [\<lparr>shape_id = ''a'', shape_type = Bbox, shape_color = None, shape_label = None,
        shape_points = None,
        shape_bbox = Some \<lparr>rect_x = 0, rect_y = 0, rect_width = 10, rect_height = 10\<rparr>\<rparr>])
      \<lparr>selectedIds := [''a'']\<rparr>)
   = ((initialEditor
       [\<lparr>shape_id = ''a'', shape_type = Bbox, shape_color = None, shape_label = None,
        shape_points = None,
        shape_bbox = Some \<lparr>rect_x = 0, rect_y = 0, rect_width = 10, rect_height = 10\<rparr>\<rparr>])
      \<lparr>selectedIds := [''a'']\<rparr>)"
  using undo_clears_selection [of
     "((initialEditor
       [\<lparr>shape_id = ''a'', shape_type = Bbox, shape_color = None, shape_label = None,
        shape_points = None,
        shape_bbox = Some \<lparr>rect_x = 0, rect_y = 0, rect_width = 10, rect_height = 10\<rparr>\<rparr>])
      \<lparr>selectedIds := [''a''], undoStackRef := [[]]\<rparr>)"]
        undo_clears_selection [of
     "((initialEditor
       [\<lparr>shape_id = ''a'', shape_type = Bbox, shape_color = None, shape_label = None,
        shape_points = None,
        shape_bbox = Some \<lparr>rect_x = 0, rect_y = 0, rect_width = 10, rect_height = 10\<rparr>\<rparr>])
      \<lparr>selectedIds := [''a'']\<rparr>)"]
  by (simp add: initialEditor_def)

subsection \<open>Runs of events\<close>

lemma syncDrawingColor_fields [simp]:
  "annotations (syncDrawingColor st) = annotations st"
  "undoStackRef (syncDrawingColor st) = undoStackRef st"
  "selectedIds (syncDrawingColor st) = selectedIds st"
  "polygonPoints (syncDrawingColor st) = polygonPoints st"
  "freehandPointsRef (syncDrawingColor st) = freehandPointsRef st"
  "currentColor (syncDrawingColor st) = currentColor st"
  "tool (syncDrawingColor st) = tool st"
  "isDrawing (syncDrawingColor st) = isDrawing st"
  "startPos (syncDrawingColor st) = startPos st"
  by (simp_all add: syncDrawingColor_def)

lemma syncDrawingColor_drawing: "isDrawing st \<Longrightarrow> syncDrawingColor st = st"
  by (simp add: syncDrawingColor_def)

lemma run_Cons: "run st (e # es) = run (step st e) es"
  by (simp add: run_def)

lemma run_Nil: "run st [] = st"
  by (simp add: run_def)

lemma run_append: "run st (es @ fs) = run (run st es) fs"
  by (simp add: run_def)

subsection \<open>The bbox tool\<close>

lemma handleMouseMove_bbox:
  "tool st = ToolBbox \<Longrightarrow> \<exists>d. handleMouseMove st coords = st\<lparr>draftShape := d\<rparr>"
proof -
  assume t: "tool st = ToolBbox"
  show ?thesis
  proof (cases "isDrawing st \<and> startPos st \<noteq> None")
    case True
    with t have "handleMouseMove st coords =
        st\<lparr>draftShape := Some (draftBbox st (the (startPos st)) coords)\<rparr>"
      by (simp add: handleMouseMove_def)
    then show ?thesis by blast
  next
    case False
    with t have "handleMouseMove st coords = st\<lparr>draftShape := draftShape st\<rparr>"
      by (auto simp add: handleMouseMove_def)
    then show ?thesis by blast
  qed
qed

lemma bbox_drag_result:
  assumes "tool st = ToolBbox"
  shows "handleMouseUp ((handleMouseDown st start shift0 id0)\<lparr>draftShape := d\<rparr>) coords shiftKey newId =
     (if \<bar>pt_x coords - pt_x start\<bar> < 8 \<or> \<bar>pt_y coords - pt_y start\<bar> < 8
      then st\<lparr>isDrawing := False, drawingColorRef := currentColor st, startPos := None,
              draftShape := None\<rparr>
      else st\<lparr>isDrawing := False, drawingColorRef := currentColor st, startPos := None,
              draftShape := None,
              undoStackRef := pushUndoSnapshot (undoStackRef st) (annotations st),
              annotations := annotations st @
                [\<lparr>shape_id = newId, shape_type = Bbox, shape_color = Some (currentColor st),
                  shape_label = None, shape_points = None,
                  shape_bbox = Some \<lparr>rect_x = min (pt_x start) (pt_x coords),
                                     rect_y = min (pt_y start) (pt_y coords),
                                     rect_width = \<bar>pt_x coords - pt_x start\<bar>,
                                     rect_height = \<bar>pt_y coords - pt_y start\<bar>\<rparr>\<rparr>],
              selectedIds := [newId]\<rparr>)"
  using assms
  by (simp add: handleMouseUp_def handleMouseDown_def finalizeBoundingBox_def commitShape_def
        MIN_BOX_SIZE_def Let_def)

lemma run_moves_bbox:
  "tool st = ToolBbox \<Longrightarrow> isDrawing st \<Longrightarrow>
   \<exists>d. run st (map MouseMove moves) = st\<lparr>draftShape := d\<rparr>"
proof (induction moves arbitrary: st)
  case Nil
  have "st = st\<lparr>draftShape := draftShape st\<rparr>" by simp
  then show ?case by (metis list.simps(8) run_Nil)
next
  case (Cons c moves)
  from handleMouseMove_bbox [OF Cons.prems(1), of c]
  obtain d where d: "handleMouseMove st c = st\<lparr>draftShape := d\<rparr>" by blast
  have s: "step st (MouseMove c) = st\<lparr>draftShape := d\<rparr>"
    using Cons.prems(2) by (simp add: step_def d syncDrawingColor_def)
  have "tool (st\<lparr>draftShape := d\<rparr>) = ToolBbox" "isDrawing (st\<lparr>draftShape := d\<rparr>)"
    using Cons.prems by simp_all
  from Cons.IH [OF this]
  obtain d' where "run (st\<lparr>draftShape := d\<rparr>) (map MouseMove moves)
                   = st\<lparr>draftShape := d\<rparr>\<lparr>draftShape := d'\<rparr>" by blast
  then have "run st (map MouseMove (c # moves)) = st\<lparr>draftShape := d'\<rparr>"
    by (simp add: run_Cons s)
  then show ?case by blast
qed

lemma step_MouseDown_bbox:
  "tool st = ToolBbox \<Longrightarrow>
   step st (MouseDown start shift0 id0) = handleMouseDown st start shift0 id0 \<and>
   tool (handleMouseDown st start shift0 id0) = ToolBbox \<and>
   isDrawing (handleMouseDown st start shift0 id0)"
  by (simp add: step_def handleMouseDown_def syncDrawingColor_def)

lemma run_bbox_drag:
  assumes "tool st = ToolBbox"
  shows "\<exists>d. run st (MouseDown start shift0 id0 # map MouseMove moves @ [MouseUp coords shiftKey newId])
     = syncDrawingColor
         (handleMouseUp ((handleMouseDown st start shift0 id0)\<lparr>draftShape := d\<rparr>)
            coords shiftKey newId)"
proof -
  from step_MouseDown_bbox [OF assms, of start shift0 id0]
  have s: "step st (MouseDown start shift0 id0) = handleMouseDown st start shift0 id0"
    and t: "tool (handleMouseDown st start shift0 id0) = ToolBbox"
    and i: "isDrawing (handleMouseDown st start shift0 id0)" by simp_all
  from run_moves_bbox [OF t i, of moves]
  obtain d where m: "run (handleMouseDown st start shift0 id0) (map MouseMove moves)
     = (handleMouseDown st start shift0 id0)\<lparr>draftShape := d\<rparr>" by blast
  have "run st (MouseDown start shift0 id0 # map MouseMove moves @ [MouseUp coords shiftKey newId])
     = run (handleMouseDown st start shift0 id0)
         (map MouseMove moves @ [MouseUp coords shiftKey newId])"
    by (simp only: run_Cons s)
  also have "\<dots> = run ((handleMouseDown st start shift0 id0)\<lparr>draftShape := d\<rparr>)
                       [MouseUp coords shiftKey newId]"
    by (simp only: run_append m)
  also have "\<dots> = syncDrawingColor
         (handleMouseUp ((handleMouseDown st start shift0 id0)\<lparr>draftShape := d\<rparr>)
            coords shiftKey newId)"
    by (simp add: run_Cons run_Nil step_def)
  finally show ?thesis by blast
qed

text \<open>
  C5. A bbox drag (pointer-down at \<open>start\<close>, any pointer moves, pointer-up at \<open>coords\<close>)
  commits a shape exactly when both \<open>|coords.x - start.x|\<close> and \<open>|coords.y - start.y|\<close> are
  at least 8: then the collection gains one bbox shape with \<open>x\<close>, \<open>y\<close> the minima and
  \<open>width\<close>, \<open>height\<close> the absolute differences, after a snapshot of the previous collection
  was pushed; otherwise the collection and the undo history are unchanged.
\<close>

theorem bbox_minimum_size_gate:
  "tool st = ToolBbox \<Longrightarrow>
   (let st' = run st (MouseDown start shift0 id0 # map MouseMove moves @
                       [MouseUp coords shiftKey newId])
    in if 8 \<le> \<bar>pt_x coords - pt_x start\<bar> \<and> 8 \<le> \<bar>pt_y coords - pt_y start\<bar>
       then annotations st' = annotations st @
              [\<lparr>shape_id = newId, shape_type = Bbox, shape_color = Some (currentColor st),
                shape_label = None, shape_points = None,
                shape_bbox = Some \<lparr>rect_x = min (pt_x start) (pt_x coords),
                                   rect_y = min (pt_y start) (pt_y coords),
                                   rect_width = \<bar>pt_x coords - pt_x start\<bar>,
                                   rect_height = \<bar>pt_y coords - pt_y start\<bar>\<rparr>\<rparr>] \<and>
            undoStackRef st' = pushUndoSnapshot (undoStackRef st) (annotations st) \<and>
            selectedIds st' = [newId]
       else annotations st' = annotations st \<and> undoStackRef st' = undoStackRef st)"
proof -
  assume t: "tool st = ToolBbox"
  from run_bbox_drag [OF t, of start shift0 id0 moves coords shiftKey newId]
  obtain d where r: "run st (MouseDown start shift0 id0 # map MouseMove moves @
                       [MouseUp coords shiftKey newId])
     = syncDrawingColor
         (handleMouseUp ((handleMouseDown st start shift0 id0)\<lparr>draftShape := d\<rparr>)
            coords shiftKey newId)" by blast
  show ?thesis
    unfolding Let_def r bbox_drag_result [OF t] by (simp add: not_le)
qed

theorem bbox_minimum_size_gate_witness:
  "annotations (run (initialEditor [])
      [MouseDown \<lparr>pt_x = 10, pt_y = 10\<rparr> False ''unused'',
       MouseMove \<lparr>pt_x = 20, pt_y = 20\<rparr>,
       MouseUp \<lparr>pt_x = 30, pt_y = 25\<rparr> False ''b1''])
     = [\<lparr>shape_id = ''b1'', shape_type = Bbox, shape_color = Some ''#ef4444'',
         shape_label = None, shape_points = None,
         shape_bbox = Some \<lparr>rect_x = 10, rect_y = 10, rect_width = 20, rect_height = 15\<rparr>\<rparr>] \<and>
   annotations (run (initialEditor [])
      [MouseDown \<lparr>pt_x = 10, pt_y = 10\<rparr> False ''unused'',
       MouseUp \<lparr>pt_x = 12, pt_y = 11\<rparr> False ''b1'']) = [] \<and>
   undoStackRef (run (initialEditor [])
      [MouseDown \<lparr>pt_x = 10, pt_y = 10\<rparr> False ''unused'',
       MouseUp \<lparr>pt_x = 12, pt_y = 11\<rparr> False ''b1'']) = []"
  using bbox_minimum_size_gate [of "initialEditor []" "\<lparr>pt_x = 10, pt_y = 10\<rparr>" False "''unused''"
          "[\<lparr>pt_x = 20, pt_y = 20\<rparr>]" "\<lparr>pt_x = 30, pt_y = 25\<rparr>" False "''b1''"]
        bbox_minimum_size_gate [of "initialEditor []" "\<lparr>pt_x = 10, pt_y = 10\<rparr>" False "''unused''"
          "[]" "\<lparr>pt_x = 12, pt_y = 11\<rparr>" False "''b1''"]
  by (simp add: initialEditor_def COLORS_def Let_def)

subsection \<open>The polygon tool\<close>

lemma polygon_click_result:
  assumes "tool st = ToolPolygon"
  shows "step st (MouseDown coords shiftKey newId) =
     (if 3 \<le> length (polygonPoints st) \<and>
         hypot (pt_x coords - pt_x (hd (polygonPoints st)))
               (pt_y coords - pt_y (hd (polygonPoints st))) \<le> 14
      then syncDrawingColor
             (st\<lparr>undoStackRef := pushUndoSnapshot (undoStackRef st) (annotations st),
                 annotations := annotations st @
                   [\<lparr>shape_id = newId, shape_type = Polygon,
                     shape_color = Some (drawingColorRef st), shape_label = None,
                     shape_points = Some (ensureClosed (polygonPoints st) 14),
                     shape_bbox = None\<rparr>],
                 selectedIds := [newId], polygonPoints := []\<rparr>)
      else (if polygonPoints st = [] then st\<lparr>drawingColorRef := currentColor st\<rparr> else st)
             \<lparr>polygonPoints := polygonPoints st @ [coords]\<rparr>)"
proof (cases "polygonPoints st")
  case Nil
  then show ?thesis using assms
    by (simp add: step_def handleMouseDown_def syncDrawingColor_def Let_def)
next
  case (Cons p ps)
  then show ?thesis using assms
    by (simp add: step_def handleMouseDown_def syncDrawingColor_def Let_def
          finalizePolygon_def commitShape_def POLYGON_CLOSE_DISTANCE_def)
qed

text \<open>
  C4. With the polygon tool, a pointer-down while at least three vertices are placed and
  within 14 px of the first one finalizes the polygon instead of adding a vertex: the
  committed shape carries the generated id and the closed path, which starts and ends at
  the first vertex and contains placed vertices only; the in-progress list is cleared.
  Any other pointer-down appends the point and commits nothing. Finalizing fewer than
  three vertices does nothing.
\<close>

theorem polygon_close_gesture:
  "tool st = ToolPolygon \<Longrightarrow>
   (let st' = step st (MouseDown coords shiftKey newId)
    in if 3 \<le> length (polygonPoints st) \<and>
          hypot (pt_x coords - pt_x (hd (polygonPoints st)))
                (pt_y coords - pt_y (hd (polygonPoints st))) \<le> 14
       then annotations st' = annotations st @
              [\<lparr>shape_id = newId, shape_type = Polygon,
                shape_color = Some (drawingColorRef st), shape_label = None,
                shape_points = Some (ensureClosed (polygonPoints st) 14),
                shape_bbox = None\<rparr>] \<and>
            hd (ensureClosed (polygonPoints st) 14) = hd (polygonPoints st) \<and>
            last (ensureClosed (polygonPoints st) 14) = hd (polygonPoints st) \<and>
            set (ensureClosed (polygonPoints st) 14) \<subseteq> set (polygonPoints st) \<and>
            polygonPoints st' = [] \<and>
            selectedIds st' = [newId] \<and>
            undoStackRef st' = pushUndoSnapshot (undoStackRef st) (annotations st)
       else annotations st' = annotations st \<and>
            undoStackRef st' = undoStackRef st \<and>
            polygonPoints st' = polygonPoints st @ [coords]) \<and>
   (length pts < 3 \<longrightarrow> finalizePolygon st pts newId = st) \<and>
   (length (polygonPoints st) < 3 \<longrightarrow>
      handleFinishPolygon st newId = st \<and> handleEvent st (FinishPolygon newId) = st)"
proof -
  assume t: "tool st = ToolPolygon"
  have closed: "hd (ensureClosed (polygonPoints st) 14) = hd (polygonPoints st) \<and>
                last (ensureClosed (polygonPoints st) 14) = hd (polygonPoints st) \<and>
                set (ensureClosed (polygonPoints st) 14) \<subseteq> set (polygonPoints st)"
    if l: "3 \<le> length (polygonPoints st)"
  proof -
    from l have l2: "2 \<le> length (polygonPoints st)" and ne: "polygonPoints st \<noteq> []" by auto
    have h: "polygonPoints st ! 0 = hd (polygonPoints st)" using ne by (simp add: hd_conv_nth)
    have sub: "set (ensureClosed (polygonPoints st) 14) \<subseteq> set (polygonPoints st)"
      using ne by (auto simp: ensureClosed_def Let_def h dest: in_set_butlastD)
    show ?thesis using ensureClosed_hd_last [OF l2, of 14] sub by (auto simp: h)
  qed
  have a: "length pts < 3 \<longrightarrow> finalizePolygon st pts newId = st"
    by (simp add: finalizePolygon_def)
  have b: "length (polygonPoints st) < 3 \<longrightarrow>
      handleFinishPolygon st newId = st \<and> handleEvent st (FinishPolygon newId) = st"
    by (simp add: handleFinishPolygon_def finalizePolygon_def)
  show ?thesis
    unfolding Let_def polygon_click_result [OF t] using closed a b
    by (auto simp: syncDrawingColor_def)
qed

lemma three_vertices_placed:
  "run (initialEditor [])
     [SetTool ToolPolygon,
      MouseDown \<lparr>pt_x = 0, pt_y = 0\<rparr> False ''unused'',
      MouseDown \<lparr>pt_x = 10, pt_y = 0\<rparr> False ''unused'',
      MouseDown \<lparr>pt_x = 10, pt_y = 10\<rparr> False ''unused'']
   = (initialEditor [])\<lparr>tool := ToolPolygon,
        polygonPoints := [\<lparr>pt_x = 0, pt_y = 0\<rparr>, \<lparr>pt_x = 10, pt_y = 0\<rparr>, \<lparr>pt_x = 10, pt_y = 10\<rparr>]\<rparr>"
  by (simp add: run_def step_def setTool_def handleMouseDown_def syncDrawingColor_def
        initialEditor_def Let_def)

theorem polygon_close_gesture_witness:
  "annotations (run (initialEditor [])
     [SetTool ToolPolygon,
      MouseDown \<lparr>pt_x = 0, pt_y = 0\<rparr> False ''unused'',
      MouseDown \<lparr>pt_x = 10, pt_y = 0\<rparr> False ''unused'',
      MouseDown \<lparr>pt_x = 10, pt_y = 10\<rparr> False ''unused'',
      MouseDown \<lparr>pt_x = 2, pt_y = 1\<rparr> False ''p1''])
   = [\<lparr>shape_id = ''p1'', shape_type = Polygon, shape_color = Some ''#ef4444'',
       shape_label = None,
       shape_points = Some [\<lparr>pt_x = 0, pt_y = 0\<rparr>, \<lparr>pt_x = 10, pt_y = 0\<rparr>,
                            \<lparr>pt_x = 10, pt_y = 10\<rparr>, \<lparr>pt_x = 0, pt_y = 0\<rparr>],
       shape_bbox = None\<rparr>] \<and>
   polygonPoints (run (initialEditor [])
     [SetTool ToolPolygon,
      MouseDown \<lparr>pt_x = 0, pt_y = 0\<rparr> False ''unused'',
      MouseDown \<lparr>pt_x = 10, pt_y = 0\<rparr> False ''unused'',
      MouseDown \<lparr>pt_x = 10, pt_y = 10\<rparr> False ''unused'',
      MouseDown \<lparr>pt_x = 2, pt_y = 1\<rparr> False ''p1'']) = []"
proof -
  have r0: "run (initialEditor [])
     [SetTool ToolPolygon,
      MouseDown \<lparr>pt_x = 0, pt_y = 0\<rparr> False ''unused'',
      MouseDown \<lparr>pt_x = 10, pt_y = 0\<rparr> False ''unused'',
      MouseDown \<lparr>pt_x = 10, pt_y = 10\<rparr> False ''unused'',
      MouseDown \<lparr>pt_x = 2, pt_y = 1\<rparr> False ''p1'']
    = run (run (initialEditor [])
            [SetTool ToolPolygon,
             MouseDown \<lparr>pt_x = 0, pt_y = 0\<rparr> False ''unused'',
             MouseDown \<lparr>pt_x = 10, pt_y = 0\<rparr> False ''unused'',
             MouseDown \<lparr>pt_x = 10, pt_y = 10\<rparr> False ''unused''])
          [MouseDown \<lparr>pt_x = 2, pt_y = 1\<rparr> False ''p1'']"
    using run_append [of "initialEditor []"
       "[SetTool ToolPolygon,
         MouseDown \<lparr>pt_x = 0, pt_y = 0\<rparr> False ''unused'',
         MouseDown \<lparr>pt_x = 10, pt_y = 0\<rparr> False ''unused'',
         MouseDown \<lparr>pt_x = 10, pt_y = 10\<rparr> False ''unused'']"
       "[MouseDown \<lparr>pt_x = 2, pt_y = 1\<rparr> False ''p1'']"]
    by (simp only: append_Cons append_Nil)
  have r: "run (initialEditor [])
     [SetTool ToolPolygon,
      MouseDown \<lparr>pt_x = 0, pt_y = 0\<rparr> False ''unused'',
      MouseDown \<lparr>pt_x = 10, pt_y = 0\<rparr> False ''unused'',
      MouseDown \<lparr>pt_x = 10, pt_y = 10\<rparr> False ''unused'',
      MouseDown \<lparr>pt_x = 2, pt_y = 1\<rparr> False ''p1'']
    = step ((initialEditor [])\<lparr>tool := ToolPolygon,
        polygonPoints := [\<lparr>pt_x = 0, pt_y = 0\<rparr>, \<lparr>pt_x = 10, pt_y = 0\<rparr>, \<lparr>pt_x = 10, pt_y = 10\<rparr>]\<rparr>)
        (MouseDown \<lparr>pt_x = 2, pt_y = 1\<rparr> False ''p1'')"
    unfolding r0 three_vertices_placed by (simp only: run_Cons run_Nil)
  show ?thesis
    unfolding r
    using polygon_close_gesture [of
        "(initialEditor [])\<lparr>tool := ToolPolygon,
           polygonPoints := [\<lparr>pt_x = 0, pt_y = 0\<rparr>, \<lparr>pt_x = 10, pt_y = 0\<rparr>, \<lparr>pt_x = 10, pt_y = 10\<rparr>]\<rparr>"
        "\<lparr>pt_x = 2, pt_y = 1\<rparr>" False "''p1''"]
    by (simp add: initialEditor_def Let_def ensureClosed_def hypot_le_iff hypot_eq_0_iff COLORS_def)
qed

subsection \<open>Committed polygon and freehand shapes have two points\<close>

lemma collectionOk_append: "collectionOk (xs @ [s]) = (collectionOk xs \<and> pointShapeOk s)"
  by (simp add: collectionOk_def)

lemma collectionOk_filter: "collectionOk xs \<Longrightarrow> collectionOk (filter P xs)"
  by (simp add: collectionOk_def list_all_iff)

lemma list_all_tl: "list_all P xs \<Longrightarrow> list_all P (tl xs)"
  by (cases xs) simp_all

lemma list_all_butlast: "list_all P xs \<Longrightarrow> list_all P (butlast xs)"
  by (auto simp: list_all_iff dest: in_set_butlastD)

lemma list_all_last: "list_all P xs \<Longrightarrow> xs \<noteq> [] \<Longrightarrow> P (last xs)"
  by (simp add: list_all_iff)

lemma pushUndoSnapshot_ok:
  "list_all collectionOk stack \<Longrightarrow> collectionOk snap \<Longrightarrow>
   list_all collectionOk (pushUndoSnapshot stack snap)"
  by (simp add: pushUndoSnapshot_eq list_all_tl)

lemma commitShape_ok:
  "editorOk st \<Longrightarrow> pointShapeOk s \<Longrightarrow> editorOk (commitShape st s)"
  by (simp add: editorOk_def commitShape_def collectionOk_append pushUndoSnapshot_ok)

lemma editorOk_transient:
  "annotations st' = annotations st \<Longrightarrow> undoStackRef st' = undoStackRef st \<Longrightarrow>
   editorOk st \<Longrightarrow> editorOk st'"
  by (simp add: editorOk_def)

lemma appendFreehandPoint_fields [simp]:
  "annotations (appendFreehandPoint st p f) = annotations st"
  "undoStackRef (appendFreehandPoint st p f) = undoStackRef st"
  by (simp_all add: appendFreehandPoint_def Let_def)

lemma undoLastAnnotationChange_ok:
  "editorOk st \<Longrightarrow> editorOk (undoLastAnnotationChange st)"
  by (simp add: editorOk_def undoLastAnnotationChange_def list_all_butlast list_all_last)

lemma finalizePolygon_ok: "editorOk st \<Longrightarrow> editorOk (finalizePolygon st pts newId)"
proof (cases "length pts < 3")
  case True
  assume "editorOk st"
  with True show ?thesis by (simp add: finalizePolygon_def)
next
  case False
  assume ok: "editorOk st"
  let ?s = "\<lparr>shape_id = newId, shape_type = Polygon, shape_color = Some (drawingColorRef st),
             shape_label = None,
             shape_points = Some (ensureClosed pts POLYGON_CLOSE_DISTANCE), shape_bbox = None\<rparr>"
  have "2 \<le> length (ensureClosed pts POLYGON_CLOSE_DISTANCE)"
    using False ensureClosed_length [of pts POLYGON_CLOSE_DISTANCE] by linarith
  then have "pointShapeOk ?s" by (simp add: pointShapeOk_def)
  from commitShape_ok [OF ok this]
  have "editorOk ((commitShape st ?s)\<lparr>polygonPoints := []\<rparr>)"
    by (rule editorOk_transient [rotated 2]) simp_all
  with False show ?thesis by (simp add: finalizePolygon_def Let_def)
qed

lemma finalizeFreehand_ok: "editorOk st \<Longrightarrow> editorOk (finalizeFreehand st newId)"
proof (cases "length (freehandPointsRef st) < 2")
  case True
  assume "editorOk st"
  with True show ?thesis by (simp add: finalizeFreehand_def editorOk_def)
next
  case False
  assume ok: "editorOk st"
  let ?s = "\<lparr>shape_id = newId, shape_type = Freehand, shape_color = Some (drawingColorRef st),
             shape_label = None,
             shape_points = Some (ensureClosed (freehandPointsRef st) FREEHAND_CLOSE_DISTANCE),
             shape_bbox = None\<rparr>"
  have "2 \<le> length (ensureClosed (freehandPointsRef st) FREEHAND_CLOSE_DISTANCE)"
    using False ensureClosed_length [of "freehandPointsRef st" FREEHAND_CLOSE_DISTANCE] by linarith
  then have "pointShapeOk ?s" by (simp add: pointShapeOk_def)
  from commitShape_ok [OF ok this]
  have "editorOk ((commitShape st ?s)\<lparr>freehandPointsRef := [], draftShape := None,
                 isDrawing := False, startPos := None\<rparr>)"
    by (rule editorOk_transient [rotated 2]) simp_all
  with False show ?thesis by (simp add: finalizeFreehand_def Let_def)
qed

lemma finalizeBoundingBox_ok: "editorOk st \<Longrightarrow> editorOk (finalizeBoundingBox st coords newId)"
  by (auto simp: finalizeBoundingBox_def Let_def pointShapeOk_def
           intro!: commitShape_ok split: option.splits)

lemma handleMouseDown_ok: "editorOk st \<Longrightarrow> editorOk (handleMouseDown st coords shiftKey newId)"
proof (cases "tool st")
  case ToolBbox
  assume "editorOk st"
  with ToolBbox show ?thesis by (simp add: handleMouseDown_def editorOk_def)
next
  case ToolPolygon
  assume ok: "editorOk st"
  have ok1: "editorOk (if polygonPoints st = [] then st\<lparr>drawingColorRef := currentColor st\<rparr> else st)"
    using ok by (simp add: editorOk_def)
  show ?thesis
    using ToolPolygon ok1 finalizePolygon_ok [OF ok1]
    by (simp add: handleMouseDown_def Let_def editorOk_def)
next
  case ToolFreehand
  assume "editorOk st"
  with ToolFreehand show ?thesis by (simp add: handleMouseDown_def editorOk_def)
next
  case ToolSelect
  assume "editorOk st"
  with ToolSelect show ?thesis by (simp add: handleMouseDown_def editorOk_def)
next
  case ToolErase
  assume "editorOk st"
  with ToolErase show ?thesis
    by (simp add: handleMouseDown_def editorOk_def Let_def collectionOk_filter pushUndoSnapshot_ok)
qed

lemma handleMouseMove_ok: "editorOk st \<Longrightarrow> editorOk (handleMouseMove st coords)"
  by (simp add: handleMouseMove_def editorOk_def)

lemma handleMouseUp_ok: "editorOk st \<Longrightarrow> editorOk (handleMouseUp st coords shiftKey newId)"
proof (cases "tool st = ToolSelect")
  case True
  assume "editorOk st"
  with True show ?thesis by (simp add: handleMouseUp_def editorOk_def Let_def)
next
  case False
  assume ok: "editorOk st"
  have b: "editorOk ((finalizeBoundingBox st coords newId)
                      \<lparr>isDrawing := False, startPos := None, draftShape := None\<rparr>)"
    using finalizeBoundingBox_ok [OF ok, of coords newId]
    by (rule editorOk_transient [rotated 2]) simp_all
  have "editorOk (appendFreehandPoint st coords True)"
    using ok by (rule editorOk_transient [rotated 2]) simp_all
  then have f: "editorOk (finalizeFreehand (appendFreehandPoint st coords True) newId)"
    by (rule finalizeFreehand_ok)
  show ?thesis using False ok b f by (simp add: handleMouseUp_def)
qed

lemma handleMouseLeave_ok: "editorOk st \<Longrightarrow> editorOk (handleMouseLeave st coords shiftKey newId)"
  by (simp add: handleMouseLeave_def Let_def handleMouseUp_ok finalizeFreehand_ok)

lemma handleDeleteSelected_ok: "editorOk st \<Longrightarrow> editorOk (handleDeleteSelected st)"
  by (simp add: handleDeleteSelected_def editorOk_def collectionOk_filter pushUndoSnapshot_ok)

lemma handleKeyDown_undo_ok: "editorOk st \<Longrightarrow> editorOk (handleKeyDown_undo st)"
  using undoLastAnnotationChange_ok [of st]
  by (simp add: handleKeyDown_undo_def editorOk_def)

lemma handleEvent_ok:
  assumes ok: "editorOk st"
  shows "editorOk (handleEvent st e)"
proof (cases e)
  case (MouseDown coords shiftKey newId)
  then show ?thesis using ok by (simp add: handleMouseDown_ok)
next
  case (MouseMove coords)
  then show ?thesis using ok by (simp add: handleMouseMove_ok)
next
  case (MouseUp coords shiftKey newId)
  then show ?thesis using ok by (simp add: handleMouseUp_ok)
next
  case (MouseLeave coords shiftKey newId)
  then show ?thesis using ok by (simp add: handleMouseLeave_ok)
next
  case (FinishPolygon newId)
  then show ?thesis using ok by (simp add: handleFinishPolygon_def finalizePolygon_ok)
next
  case UndoPolygonPoint
  then show ?thesis using ok by (simp add: handleUndoPolygonPoint_def editorOk_def)
next
  case ClearPolygon
  then show ?thesis using ok by (simp add: handleClearPolygon_def editorOk_def)
next
  case DeleteSelected
  then show ?thesis using ok by (simp add: handleDeleteSelected_ok)
next
  case UndoKey
  then show ?thesis using ok by (simp add: handleKeyDown_undo_ok)
next
  case (SetTool t)
  then show ?thesis using ok by (simp add: setTool_def editorOk_def)
next
  case (SetCurrentColor c)
  then show ?thesis using ok by (simp add: setCurrentColor_def editorOk_def)
qed

lemma step_ok: "editorOk st \<Longrightarrow> editorOk (step st e)"
  unfolding step_def
  by (rule editorOk_transient [OF _ _ handleEvent_ok]) simp_all

lemma run_ok: "editorOk st \<Longrightarrow> editorOk (run st events)"
  by (induction events arbitrary: st) (simp_all add: run_Nil run_Cons step_ok)

lemma initialEditor_ok: "collectionOk anns \<Longrightarrow> editorOk (initialEditor anns)"
  by (simp add: editorOk_def initialEditor_def)

text \<open>
  C8. \<open>ensureClosed\<close> keeps the length of its input or adds one; finalizing a polygon of
  fewer than three vertices or a freehand stroke of fewer than two points commits
  nothing; hence in every state reached from the empty editor by any sequence of events,
  each polygon or freehand shape of the collection has at least two points.
\<close>

theorem committed_point_shapes_have_two_points:
  "length pts \<le> length (ensureClosed pts t) \<and>
   length (ensureClosed pts t) \<le> length pts + 1 \<and>
   (length pts < 3 \<longrightarrow> finalizePolygon st pts newId = st) \<and>
   (length (freehandPointsRef st) < 2 \<longrightarrow>
      annotations (finalizeFreehand st newId) = annotations st) \<and>
   (\<forall>shape \<in> set (annotations (run (initialEditor []) events)).
      shape_type shape \<noteq> Bbox \<longrightarrow> (\<exists>ps. shape_points shape = Some ps \<and> 2 \<le> length ps))"
proof -
  have "collectionOk []" by (simp add: collectionOk_def)
  then have "editorOk (run (initialEditor []) events)"
    by (intro run_ok initialEditor_ok)
  then have "list_all pointShapeOk (annotations (run (initialEditor []) events))"
    by (simp add: editorOk_def collectionOk_def)
  then have inv: "\<forall>shape \<in> set (annotations (run (initialEditor []) events)).
      shape_type shape \<noteq> Bbox \<longrightarrow> (\<exists>ps. shape_points shape = Some ps \<and> 2 \<le> length ps)"
    by (auto simp: list_all_iff pointShapeOk_def split: if_splits option.splits)
  have f: "length (freehandPointsRef st) < 2 \<longrightarrow>
      annotations (finalizeFreehand st newId) = annotations st"
    by (simp add: finalizeFreehand_def)
  have p: "length pts < 3 \<longrightarrow> finalizePolygon st pts newId = st"
    by (simp add: finalizePolygon_def)
  from ensureClosed_length [of pts t] inv f p show ?thesis by blast
qed

lemma freehand_stroke_run:
  "annotations (run (initialEditor [])
     [SetTool ToolFreehand,
      MouseDown \<lparr>pt_x = 0, pt_y = 0\<rparr> False ''unused'',
      MouseMove \<lparr>pt_x = 5, pt_y = 0\<rparr>,
      MouseUp \<lparr>pt_x = 5, pt_y = 5\<rparr> False ''f1''])
   = [\<lparr>shape_id = ''f1'', shape_type = Freehand, shape_color = Some ''#ef4444'',
       shape_label = None,
       shape_points = Some [\<lparr>pt_x = 0, pt_y = 0\<rparr>, \<lparr>pt_x = 5, pt_y = 0\<rparr>, \<lparr>pt_x = 0, pt_y = 0\<rparr>],
       shape_bbox = None\<rparr>]"
  by (simp add: run_def step_def setTool_def handleMouseDown_def handleMouseMove_def
        handleMouseUp_def appendFreehandPoint_def finalizeFreehand_def commitShape_def
        syncDrawingColor_def ensureClosed_def hypot_le_iff hypot_ge_iff hypot_eq_0_iff
        initialEditor_def COLORS_def FREEHAND_CLOSE_DISTANCE_def Let_def)

theorem committed_point_shapes_have_two_points_witness:
  "annotations (run (initialEditor [])
     [SetTool ToolFreehand,
      MouseDown \<lparr>pt_x = 0, pt_y = 0\<rparr> False ''unused'',
      MouseMove \<lparr>pt_x = 5, pt_y = 0\<rparr>,
      MouseUp \<lparr>pt_x = 5, pt_y = 5\<rparr> False ''f1''])
   = [\<lparr>shape_id = ''f1'', shape_type = Freehand, shape_color = Some ''#ef4444'',
       shape_label = None,
       shape_points = Some [\<lparr>pt_x = 0, pt_y = 0\<rparr>, \<lparr>pt_x = 5, pt_y = 0\<rparr>, \<lparr>pt_x = 0, pt_y = 0\<rparr>],
       shape_bbox = None\<rparr>] \<and>
   (\<exists>ps. shape_points
           \<lparr>shape_id = ''f1'', shape_type = Freehand, shape_color = Some ''#ef4444'',
            shape_label = None,
            shape_points = Some [\<lparr>pt_x = 0, pt_y = 0\<rparr>, \<lparr>pt_x = 5, pt_y = 0\<rparr>, \<lparr>pt_x = 0, pt_y = 0\<rparr>],
            shape_bbox = None\<rparr> = Some ps \<and> 2 \<le> length ps)"
  using committed_point_shapes_have_two_points [of "[]" 0 "initialEditor []" "[]"
     "[SetTool ToolFreehand,
      MouseDown \<lparr>pt_x = 0, pt_y = 0\<rparr> False ''unused'',
      MouseMove \<lparr>pt_x = 5, pt_y = 0\<rparr>,
      MouseUp \<lparr>pt_x = 5, pt_y = 5\<rparr> False ''f1'']"]
  unfolding freehand_stroke_run by simp

subsection \<open>The colour of a committed shape\<close>

text \<open>
  Every draw captures the palette colour in \<open>drawingColorRef\<close> when it starts, and a palette
  change during the draw leaves the ref alone. The freehand and polygon finalizers assign
  the ref to the committed shape; \<open>finalizeBoundingBox\<close> assigns \<open>currentColor\<close>.
\<close>

lemma drawing_color_captured_at_start:
  "tool st = ToolBbox \<or> tool st = ToolFreehand \<or>
   (tool st = ToolPolygon \<and> polygonPoints st = []) \<Longrightarrow>
   drawingColorRef (step st (MouseDown coords shiftKey newId)) = currentColor st"
  by (auto simp: step_def handleMouseDown_def syncDrawingColor_def appendFreehandPoint_def Let_def)

lemma palette_change_mid_draw:
  "isDrawing st \<or> polygonPoints st \<noteq> [] \<Longrightarrow>
   step st (SetCurrentColor c) = st\<lparr>currentColor := c\<rparr>"
  by (auto simp: step_def setCurrentColor_def syncDrawingColor_def)

lemma run_palette_changes:
  "isDrawing st \<or> polygonPoints st \<noteq> [] \<Longrightarrow>
   run st (map SetCurrentColor cs) = st\<lparr>currentColor := last (currentColor st # cs)\<rparr>"
proof (induction cs arbitrary: st)
  case Nil
  then show ?case by (simp add: run_Nil)
next
  case (Cons c cs)
  have s: "step st (SetCurrentColor c) = st\<lparr>currentColor := c\<rparr>"
    using Cons.prems by (rule palette_change_mid_draw)
  have "isDrawing (st\<lparr>currentColor := c\<rparr>) \<or> polygonPoints (st\<lparr>currentColor := c\<rparr>) \<noteq> []"
    using Cons.prems by simp
  from Cons.IH [OF this] show ?case
    by (simp add: run_Cons s)
qed

lemma freehand_color_pinned:
  assumes "tool st = ToolFreehand" and "isDrawing st" and "freehandPointsRef st \<noteq> []"
  shows "annotations (run st (map SetCurrentColor cs @ [MouseUp coords shiftKey newId]))
         = annotations st @
             [\<lparr>shape_id = newId, shape_type = Freehand,
               shape_color = Some (drawingColorRef st), shape_label = None,
               shape_points = Some (ensureClosed (freehandPointsRef st @ [coords]) 12),
               shape_bbox = None\<rparr>]"
proof -
  have r: "run st (map SetCurrentColor cs) = st\<lparr>currentColor := last (currentColor st # cs)\<rparr>"
    using assms(2) by (simp add: run_palette_changes)
  have l: "\<not> length (freehandPointsRef st @ [coords]) < 2"
    using assms(3) by (cases "freehandPointsRef st") simp_all
  show ?thesis
    unfolding run_append r using assms l
    by (simp add: run_Cons run_Nil step_def handleMouseUp_def appendFreehandPoint_def
          finalizeFreehand_def commitShape_def FREEHAND_CLOSE_DISTANCE_def Let_def)
qed

lemma polygon_color_pinned:
  assumes "tool st = ToolPolygon" and "3 \<le> length (polygonPoints st)"
  shows "annotations (run st (map SetCurrentColor cs @ [FinishPolygon newId]))
         = annotations st @
             [\<lparr>shape_id = newId, shape_type = Polygon,
               shape_color = Some (drawingColorRef st), shape_label = None,
               shape_points = Some (ensureClosed (polygonPoints st) 14),
               shape_bbox = None\<rparr>]"
proof -
  have ne: "polygonPoints st \<noteq> []" using assms(2) by auto
  have r: "run st (map SetCurrentColor cs) = st\<lparr>currentColor := last (currentColor st # cs)\<rparr>"
    using ne by (simp add: run_palette_changes)
  show ?thesis
    unfolding run_append r using assms
    by (simp add: run_Cons run_Nil step_def handleFinishPolygon_def finalizePolygon_def
          commitShape_def POLYGON_CLOSE_DISTANCE_def Let_def)
qed

lemma bbox_color_follows_palette:
  assumes "tool st = ToolBbox" and "isDrawing st" and "startPos st = Some start"
    and "8 \<le> \<bar>pt_x coords - pt_x start\<bar>" and "8 \<le> \<bar>pt_y coords - pt_y start\<bar>"
  shows "annotations (run st (map SetCurrentColor cs @ [MouseUp coords shiftKey newId]))
         = annotations st @
             [\<lparr>shape_id = newId, shape_type = Bbox,
               shape_color = Some (last (currentColor st # cs)), shape_label = None,
               shape_points = None,
               shape_bbox = Some \<lparr>rect_x = min (pt_x start) (pt_x coords),
                                  rect_y = min (pt_y start) (pt_y coords),
                                  rect_width = \<bar>pt_x coords - pt_x start\<bar>,
                                  rect_height = \<bar>pt_y coords - pt_y start\<bar>\<rparr>\<rparr>]"
proof -
  have r: "run st (map SetCurrentColor cs) = st\<lparr>currentColor := last (currentColor st # cs)\<rparr>"
    using assms(2) by (simp add: run_palette_changes)
  show ?thesis
    unfolding run_append r using assms
    by (simp add: run_Cons run_Nil step_def handleMouseUp_def finalizeBoundingBox_def
          commitShape_def MIN_BOX_SIZE_def Let_def)
qed

text \<open>
  C1. Colour pinning does not hold for the bbox tool. From the initial editor (palette
  \<open>#ef4444\<close>), a bbox drag from (10,10) to (30,25) with the palette changed to \<open>#3b82f6\<close>
  between pointer-down and pointer-up commits a shape coloured \<open>#3b82f6\<close>, although the
  ref still holds the colour captured at pointer-down; the same drag without the palette
  change commits \<open>#ef4444\<close>. Two runs that differ only in a mid-draw palette change thus
  commit different colours.
\<close>

theorem bbox_color_taken_at_pointer_up:
  "annotations (run (initialEditor [])
      [MouseDown \<lparr>pt_x = 10, pt_y = 10\<rparr> False ''unused'',
       SetCurrentColor ''#3b82f6'',
       MouseUp \<lparr>pt_x = 30, pt_y = 25\<rparr> False ''b1''])
     = [\<lparr>shape_id = ''b1'', shape_type = Bbox, shape_color = Some ''#3b82f6'',
         shape_label = None, shape_points = None,
         shape_bbox = Some \<lparr>rect_x = 10, rect_y = 10, rect_width = 20, rect_height = 15\<rparr>\<rparr>] \<and>
   drawingColorRef (run (initialEditor [])
      [MouseDown \<lparr>pt_x = 10, pt_y = 10\<rparr> False ''unused'',
       SetCurrentColor ''#3b82f6'']) = ''#ef4444'' \<and>
   annotations (run (initialEditor [])
      [MouseDown \<lparr>pt_x = 10, pt_y = 10\<rparr> False ''unused'',
       MouseUp \<lparr>pt_x = 30, pt_y = 25\<rparr> False ''b1''])
     = [\<lparr>shape_id = ''b1'', shape_type = Bbox, shape_color = Some ''#ef4444'',
         shape_label = None, shape_points = None,
         shape_bbox = Some \<lparr>rect_x = 10, rect_y = 10, rect_width = 20, rect_height = 15\<rparr>\<rparr>]"
  by (simp add: run_def step_def handleMouseDown_def handleMouseUp_def setCurrentColor_def
        finalizeBoundingBox_def commitShape_def syncDrawingColor_def initialEditor_def
        COLORS_def MIN_BOX_SIZE_def Let_def)

subsection \<open>Undo through the event loop\<close>

text \<open>
  The same count at the level of events: 51 bbox drags from the empty editor, each
  committing one shape, followed by 51 presses of the undo chord, leave one shape.
\<close>

lemma undoLastAnnotationChange_core:
  "annotations st = annotations st' \<Longrightarrow> undoStackRef st = undoStackRef st' \<Longrightarrow>
   annotations (undoLastAnnotationChange st) = annotations (undoLastAnnotationChange st') \<and>
   undoStackRef (undoLastAnnotationChange st) = undoStackRef (undoLastAnnotationChange st')"
  by (simp add: undoLastAnnotationChange_def)

lemma step_UndoKey_bbox:
  "tool st = ToolBbox \<Longrightarrow>
   step st UndoKey = syncDrawingColor (undoLastAnnotationChange st) \<and>
   tool (step st UndoKey) = ToolBbox"
  by (simp add: step_def handleKeyDown_undo_def undoLastAnnotationChange_def)

lemma run_UndoKeys_bbox:
  "tool st = ToolBbox \<Longrightarrow>
   annotations st = annotations st' \<Longrightarrow> undoStackRef st = undoStackRef st' \<Longrightarrow>
   annotations (run st (replicate k UndoKey)) = annotations ((undoLastAnnotationChange ^^ k) st')"
proof (induction k arbitrary: st st')
  case 0
  then show ?case by (simp add: run_Nil)
next
  case (Suc k)
  have s: "step st UndoKey = syncDrawingColor (undoLastAnnotationChange st)"
    by (rule step_UndoKey_bbox [OF Suc.prems(1), THEN conjunct1])
  have t: "tool (step st UndoKey) = ToolBbox"
    by (rule step_UndoKey_bbox [OF Suc.prems(1), THEN conjunct2])
  have c: "annotations (step st UndoKey) = annotations (undoLastAnnotationChange st')"
          "undoStackRef (step st UndoKey) = undoStackRef (undoLastAnnotationChange st')"
    using undoLastAnnotationChange_core [OF Suc.prems(2,3)] by (simp_all add: s)
  have "annotations (run st (replicate (Suc k) UndoKey))
          = annotations (run (step st UndoKey) (replicate k UndoKey))"
    by (simp add: run_Cons)
  also have "\<dots> = annotations ((undoLastAnnotationChange ^^ k) (undoLastAnnotationChange st'))"
    using t c by (rule Suc.IH)
  also have "\<dots> = annotations ((undoLastAnnotationChange ^^ Suc k) st')"
    by (simp add: funpow_swap1)
  finally show ?case .
qed


lemma bbox_drag_core:
  assumes t: "tool st = ToolBbox"
  shows "annotations (run st [MouseDown \<lparr>pt_x = 0, pt_y = 0\<rparr> False newId,
                              MouseUp \<lparr>pt_x = 10, pt_y = 10\<rparr> False newId])
           = annotations st @
               [\<lparr>shape_id = newId, shape_type = Bbox, shape_color = Some (currentColor st),
                 shape_label = None, shape_points = None,
                 shape_bbox = Some \<lparr>rect_x = 0, rect_y = 0, rect_width = 10, rect_height = 10\<rparr>\<rparr>] \<and>
         undoStackRef (run st [MouseDown \<lparr>pt_x = 0, pt_y = 0\<rparr> False newId,
                               MouseUp \<lparr>pt_x = 10, pt_y = 10\<rparr> False newId])
           = pushUndoSnapshot (undoStackRef st) (annotations st) \<and>
         tool (run st [MouseDown \<lparr>pt_x = 0, pt_y = 0\<rparr> False newId,
                       MouseUp \<lparr>pt_x = 10, pt_y = 10\<rparr> False newId]) = ToolBbox \<and>
         currentColor (run st [MouseDown \<lparr>pt_x = 0, pt_y = 0\<rparr> False newId,
                               MouseUp \<lparr>pt_x = 10, pt_y = 10\<rparr> False newId]) = currentColor st"
  using t
  by (simp add: run_Cons run_Nil step_def handleMouseDown_def handleMouseUp_def
        finalizeBoundingBox_def commitShape_def syncDrawingColor_def MIN_BOX_SIZE_def Let_def)

lemma run_drags_core:
  "tool st = ToolBbox \<Longrightarrow>
   annotations st = annotations st2 \<Longrightarrow> undoStackRef st = undoStackRef st2 \<Longrightarrow>
   annotations (run st (concat (map (\<lambda>i. [MouseDown \<lparr>pt_x = 0, pt_y = 0\<rparr> False i,
                                             MouseUp \<lparr>pt_x = 10, pt_y = 10\<rparr> False i]) ids)))
     = annotations (addShapes st2
         (map (\<lambda>i. \<lparr>shape_id = i, shape_type = Bbox, shape_color = Some (currentColor st),
                     shape_label = None, shape_points = None,
                     shape_bbox = Some \<lparr>rect_x = 0, rect_y = 0,
                                        rect_width = 10, rect_height = 10\<rparr>\<rparr>) ids)) \<and>
   undoStackRef (run st (concat (map (\<lambda>i. [MouseDown \<lparr>pt_x = 0, pt_y = 0\<rparr> False i,
                                             MouseUp \<lparr>pt_x = 10, pt_y = 10\<rparr> False i]) ids)))
     = undoStackRef (addShapes st2
         (map (\<lambda>i. \<lparr>shape_id = i, shape_type = Bbox, shape_color = Some (currentColor st),
                     shape_label = None, shape_points = None,
                     shape_bbox = Some \<lparr>rect_x = 0, rect_y = 0,
                                        rect_width = 10, rect_height = 10\<rparr>\<rparr>) ids)) \<and>
   tool (run st (concat (map (\<lambda>i. [MouseDown \<lparr>pt_x = 0, pt_y = 0\<rparr> False i,
                                     MouseUp \<lparr>pt_x = 10, pt_y = 10\<rparr> False i]) ids))) = ToolBbox"
proof (induction ids arbitrary: st st2)
  case Nil
  then show ?case by (simp add: run_Nil addShapes_def)
next
  case (Cons i ids)
  let ?drag = "\<lambda>i. [MouseDown \<lparr>pt_x = 0, pt_y = 0\<rparr> False i, MouseUp \<lparr>pt_x = 10, pt_y = 10\<rparr> False i]"
  let ?box = "\<lambda>c i. \<lparr>shape_id = i, shape_type = Bbox, shape_color = Some c,
                     shape_label = None, shape_points = None,
                     shape_bbox = Some \<lparr>rect_x = 0, rect_y = 0,
                                        rect_width = 10, rect_height = 10\<rparr>\<rparr>"
  let ?st1 = "run st (?drag i)"
  let ?st3 = "commitShape st2 (?box (currentColor st) i)"
  from bbox_drag_core [OF Cons.prems(1), of i]
  have a: "annotations ?st1 = annotations st @ [?box (currentColor st) i]"
    and u: "undoStackRef ?st1 = pushUndoSnapshot (undoStackRef st) (annotations st)"
    and t: "tool ?st1 = ToolBbox"
    and c: "currentColor ?st1 = currentColor st"
    by blast+
  have a': "annotations ?st1 = annotations ?st3"
    using a Cons.prems(2) by (simp add: commitShape_def)
  have u': "undoStackRef ?st1 = undoStackRef ?st3"
    using u Cons.prems(2,3) by (simp add: commitShape_def)
  have r: "run st (concat (map ?drag (i # ids))) = run ?st1 (concat (map ?drag ids))"
    by (simp add: run_Cons run_Nil)
  have s: "addShapes st2 (map (?box (currentColor st)) (i # ids))
           = addShapes ?st3 (map (?box (currentColor st)) ids)"
    by (simp add: addShapes_def)
  from Cons.IH [OF t a' u'] show ?case
    unfolding r s c .
qed

lemma fifty_one_drags_then_undo_keys:
  assumes "length ids = 51"
  shows "length (annotations (run (initialEditor [])
           (concat (map (\<lambda>i. [MouseDown \<lparr>pt_x = 0, pt_y = 0\<rparr> False i,
                                MouseUp \<lparr>pt_x = 10, pt_y = 10\<rparr> False i]) ids)
            @ replicate 51 UndoKey))) = 1"
proof -
  let ?drags = "concat (map (\<lambda>i. [MouseDown \<lparr>pt_x = 0, pt_y = 0\<rparr> False i,
                                     MouseUp \<lparr>pt_x = 10, pt_y = 10\<rparr> False i]) ids)"
  let ?shapes = "map (\<lambda>i. \<lparr>shape_id = i, shape_type = Bbox,
                     shape_color = Some (currentColor (initialEditor [])),
                     shape_label = None, shape_points = None,
                     shape_bbox = Some \<lparr>rect_x = 0, rect_y = 0,
                                        rect_width = 10, rect_height = 10\<rparr>\<rparr>) ids"
  have t0: "tool (initialEditor []) = ToolBbox" by (simp add: initialEditor_def)
  from run_drags_core [OF t0 refl refl, of ids]
  have a: "annotations (run (initialEditor []) ?drags)
             = annotations (addShapes (initialEditor []) ?shapes)"
    and u: "undoStackRef (run (initialEditor []) ?drags)
             = undoStackRef (addShapes (initialEditor []) ?shapes)"
    and t: "tool (run (initialEditor []) ?drags) = ToolBbox"
    by blast+
  have l: "length ?shapes = 51" using assms by simp
  have "annotations (run (initialEditor []) (?drags @ replicate 51 UndoKey))
          = annotations ((undoLastAnnotationChange ^^ 51) (addShapes (initialEditor []) ?shapes))"
    unfolding run_append using t a u by (rule run_UndoKeys_bbox)
  also have "\<dots> = [hd ?shapes]"
    using l by (rule fifty_one_adds_then_undos)
  finally show ?thesis by simp
qed

end
